theory Spec2Isabelle
  imports Main "HOL-Library.Sublist"
begin

section \<open>JavaScript values\<close>

text \<open>
  The fields that \<^verbatim>\<open>BouncerProvider.js\<close> compares with \<^verbatim>\<open>!==\<close>, tests for truthiness or
  pastes into template strings are JavaScript values. Numbers are modelled as integers (ports and
  counters; \<^verbatim>\<open>NaN\<close> and fractions do not occur), so \<^verbatim>\<open>!==\<close> on these values is
  inequality of the datatype.
\<close>

datatype jsval = Undefined | Null | JBool bool | Num int | Str string

fun truthy :: "jsval \<Rightarrow> bool" where
  "truthy Undefined = False"
| "truthy Null = False"
| "truthy (JBool b) = b"
| "truthy (Num n) = (n \<noteq> 0)"
| "truthy (Str s) = (s \<noteq> [])"

text \<open>\<^verbatim>\<open>a || b\<close> on values.\<close>

definition js_or :: "jsval \<Rightarrow> jsval \<Rightarrow> jsval" where
  "js_or a b = (if truthy a then a else b)"

text \<open>Decimal rendering of a counter, as \<^verbatim>\<open>'Network' + currentNum\<close> needs it.\<close>

definition digit_char :: "nat \<Rightarrow> char" where
  "digit_char d = ''0123456789'' ! d"

fun string_of_nat :: "nat \<Rightarrow> string" where
  "string_of_nat n =
     (if n < 10 then [digit_char n] else string_of_nat (n div 10) @ [digit_char (n mod 10)])"

declare string_of_nat.simps [simp del]

text \<open>String conversion of a value inside a template literal.\<close>

fun js_to_string :: "jsval \<Rightarrow> string" where
  "js_to_string Undefined = ''undefined''"
| "js_to_string Null = ''null''"
| "js_to_string (JBool b) = (if b then ''true'' else ''false'')"
| "js_to_string (Num n) = (if n < 0 then CHR ''-'' # string_of_nat (nat (- n)) else string_of_nat (nat n))"
| "js_to_string (Str s) = s"

section \<open>Data model\<close>

datatype conn_state = Disconnected | Connecting | Connected

datatype buffer_kind = Channel | Query | Other

record buffer =
  buf_name :: string
  buf_kind :: buffer_kind
  buf_enabled :: bool
  buf_joined :: bool
  buf_last_read :: jsval
  buf_topic :: jsval

text \<open>\<^verbatim>\<open>network.connection\<close>\<close>

record connection =
  server :: jsval
  port :: jsval
  tls :: jsval
  nick :: jsval
  bncname :: string
  direct :: jsval
  path :: jsval

text \<open>\<^verbatim>\<open>network.ircClient\<close>: the transport options the rewriter overwrites, and what the client
  reports of the capability table and of the relay extension.\<close>

record irc_client =
  opt_host :: jsval
  opt_port :: jsval
  opt_tls :: jsval
  opt_password :: jsval
  opt_path :: jsval
  cap_bouncer :: bool
  bnc_hasNetwork :: bool
  bnc_tag_network :: string

record network =
  name :: string
  net_state :: conn_state
  hidden :: bool
  password :: jsval
  username :: jsval
  connection :: connection
  ircClient :: irc_client
  buffers :: "buffer list"

text \<open>\<^verbatim>\<open>this.bnc\<close>\<close>

record bnc_config =
  bnc_enabled :: bool
  bnc_username :: jsval
  bnc_password :: jsval
  bnc_server :: jsval
  bnc_port :: jsval
  bnc_tls :: jsval
  bnc_direct :: jsval
  bnc_path :: jsval
  bnc_registered :: bool

text \<open>An entry of \<^verbatim>\<open>this.networksSnapshot\<close>. The empty object \<^verbatim>\<open>{}\<close> that stands in for a
  missing entry reads \<^verbatim>\<open>undefined\<close> at every field.\<close>

record snapshot =
  snap_name :: jsval
  snap_host :: jsval
  snap_port :: jsval
  snap_tls :: jsval
  snap_password :: jsval
  snap_nick :: jsval
  snap_username :: jsval

definition empty_snapshot :: snapshot where
  "empty_snapshot = \<lparr> snap_name = Undefined, snap_host = Undefined, snap_port = Undefined,
     snap_tls = Undefined, snap_password = Undefined, snap_nick = Undefined,
     snap_username = Undefined \<rparr>"

text \<open>The object \<^verbatim>\<open>tags\<close> of \<^verbatim>\<open>saveState\<close>: a key that was never assigned is \<open>None\<close>.\<close>

record tags =
  tag_host :: "jsval option"
  tag_port :: "jsval option"
  tag_tls :: "jsval option"
  tag_password :: "jsval option"
  tag_nick :: "jsval option"
  tag_user :: "jsval option"

text \<open>Reading a key of an object: \<^verbatim>\<open>undefined\<close> when it was never assigned.\<close>

fun js_get :: "jsval option \<Rightarrow> jsval" where
  "js_get None = Undefined"
| "js_get (Some v) = v"

text \<open>
  What the provider asks of a client in the code modelled here: \<^verbatim>\<open>bnc.addNetwork(name, host,
  port, tls, nick, user, password)\<close>, \<^verbatim>\<open>bnc.saveNetwork(bncName, tags)\<close> and a raw line.
\<close>

datatype command =
    AddNetwork string jsval jsval jsval jsval jsval jsval
  | SaveNetwork string tags
  | Raw string

text \<open>
  Networks are objects shared by reference: the cached controller, the entries of
  \<^verbatim>\<open>state.networks\<close> and the event's network may be the same object. The model keeps them in a
  store indexed by the network's id; \<open>networks\<close> lists the ids in stored order, and
  \<open>controllerNetwork\<close> is a reference into the store or \<open>None\<close> for \<^verbatim>\<open>null\<close>. \<open>next_id\<close> is the
  state store's id counter, \<open>sent\<close> the commands issued so far with the network whose client
  carried each, and \<open>logged\<close> the log lines.
\<close>

record provider =
  controllerNetwork :: "nat option"
  networks :: "nat list"
  heap :: "nat \<Rightarrow> network"
  next_id :: nat
  networksSnapshot :: "string \<rightharpoonup> snapshot"
  bnc :: bnc_config
  rewriteConnections :: bool
  sent :: "(nat \<times> command) list"
  logged :: "string list"

section \<open>Controller election\<close>

text \<open>The test of the scan loop of \<^verbatim>\<open>getController\<close> (line 60).\<close>

definition usable :: "provider \<Rightarrow> nat \<Rightarrow> bool" where
  "usable p i = (net_state (heap p i) = Connected \<and> cap_bouncer (ircClient (heap p i)))"

text \<open>\<^verbatim>\<open>getController\<close> (lines 51-67): the result and the provider with its cache updated.\<close>

definition scanController :: "provider \<Rightarrow> nat option \<times> provider" where
  "scanController p =
     (let r = find (usable p) (networks p) in (r, p\<lparr> controllerNetwork := r \<rparr>))"

definition getController :: "provider \<Rightarrow> nat option \<times> provider" where
  "getController p =
     (case controllerNetwork p of
        Some c \<Rightarrow> if net_state (heap p c) = Connected then (Some c, p) else scanController p
      | None \<Rightarrow> scanController p)"

text \<open>A network changing its connection state (an event of the transport, not of this module).\<close>

definition set_net_state :: "nat \<Rightarrow> conn_state \<Rightarrow> provider \<Rightarrow> provider" where
  "set_net_state r s p = p\<lparr> heap := (heap p)(r := (heap p r)\<lparr> net_state := s \<rparr>) \<rparr>"

section \<open>Snapshot store and save\<close>

text \<open>The entry \<^verbatim>\<open>snapshotCurrentNetworks\<close> writes for a network (lines 204-212).\<close>

definition snapshot_of :: "network \<Rightarrow> snapshot" where
  "snapshot_of network =
     \<lparr> snap_name = Str (bncname (connection network)),
       snap_host = server (connection network),
       snap_port = port (connection network),
       snap_tls = tls (connection network),
       snap_password = password network,
       snap_nick = nick (connection network),
       snap_username = username network \<rparr>"

text \<open>The callback of the loop of \<^verbatim>\<open>snapshotCurrentNetworks\<close> (lines 199-213): a network without
  a relay name is passed over.\<close>

definition snapshot_each ::
  "(nat \<Rightarrow> network) \<Rightarrow> nat \<Rightarrow> (string \<rightharpoonup> snapshot) \<Rightarrow> (string \<rightharpoonup> snapshot)" where
  "snapshot_each h r m =
     (let network = h r in
      if bncname (connection network) = [] then m
      else m(bncname (connection network) \<mapsto> snapshot_of network))"

text \<open>\<^verbatim>\<open>snapshotCurrentNetworks\<close> (lines 196-214): the store is rebuilt from an empty object.\<close>

definition snapshotCurrentNetworks :: "provider \<Rightarrow> provider" where
  "snapshotCurrentNetworks p =
     p\<lparr> networksSnapshot := fold (snapshot_each (heap p)) (networks p) Map.empty \<rparr>"

text \<open>One \<^verbatim>\<open>if (current !== snapshot.field) tags.field = current\<close> of lines 237-254.\<close>

definition changed :: "jsval \<Rightarrow> jsval \<Rightarrow> jsval option" where
  "changed current old = (if current \<noteq> old then Some current else None)"

definition diff_tags :: "network \<Rightarrow> snapshot \<Rightarrow> tags" where
  "diff_tags network snap =
     \<lparr> tag_host = changed (server (connection network)) (snap_host snap),
       tag_port = changed (port (connection network)) (snap_port snap),
       tag_tls = changed (tls (connection network)) (snap_tls snap),
       tag_password = changed (password network) (snap_password snap),
       tag_nick = changed (nick (connection network)) (snap_nick snap),
       tag_user = changed (username network) (snap_username snap) \<rparr>"

text \<open>
  The callback of the loop of \<^verbatim>\<open>saveState\<close> (lines 225-272) for the network \<open>r\<close>, with the
  \<open>controller\<close> that \<^verbatim>\<open>saveState\<close> resolved before the loop. The callback asks
  \<^verbatim>\<open>getController()\<close> again (line 229); a snapshot object is always truthy, so
  \<^verbatim>\<open>this.networksSnapshot[bncName] || {}\<close> is the entry, or the empty object when there is none.
\<close>

definition saveState_each :: "nat \<Rightarrow> nat \<Rightarrow> provider \<Rightarrow> provider" where
  "saveState_each controller r p0 =
     (let (g, p) = getController p0; network = heap p r in
      if g = Some r \<and> \<not> bnc_hasNetwork (ircClient network) then p
      else
        let bncName = bncname (connection network);
            snap = (case networksSnapshot p bncName of Some s \<Rightarrow> s | None \<Rightarrow> empty_snapshot);
            tags = diff_tags network snap
        in
          if \<not> truthy (snap_name snap) \<and> truthy (js_get (tag_host tags)) \<and>
             truthy (js_get (tag_port tags)) \<and> truthy (js_get (tag_nick tags))
          then p\<lparr> heap := (heap p)
                      (r := network\<lparr> connection := (connection network)\<lparr> bncname := name network \<rparr> \<rparr>),
                    sent := sent p @
                      [(controller,
                        AddNetwork (name network) (js_get (tag_host tags)) (js_get (tag_port tags))
                          (js_get (tag_tls tags)) (js_get (tag_nick tags)) (js_get (tag_user tags))
                          (js_get (tag_password tags)))] \<rparr>
          else if truthy (snap_name snap)
          then p\<lparr> sent := sent p @ [(controller, SaveNetwork bncName tags)] \<rparr>
          else p)"

text \<open>\<^verbatim>\<open>saveState\<close> (lines 218-275).\<close>

definition saveState :: "provider \<Rightarrow> provider" where
  "saveState p0 =
     (case getController p0 of
        (None, p) \<Rightarrow> p\<lparr> logged := logged p @ [''No controller available to save networks''] \<rparr>
      | (Some controller, p) \<Rightarrow>
          snapshotCurrentNetworks (fold (saveState_each controller) (networks p) p))"

text \<open>The commands the callback of \<^verbatim>\<open>saveState\<close> issues for the network \<open>r\<close>: what its run adds
  to the commands sent.\<close>

definition commands_for :: "nat \<Rightarrow> provider \<Rightarrow> nat \<Rightarrow> (nat \<times> command) list" where
  "commands_for controller p r = drop (length (sent p)) (sent (saveState_each controller r p))"

text \<open>
  What one run of the callback does to the network it visits and which commands it issues, read
  off \<open>saveState_each\<close> as a function of that network, of the snapshot store and of whether the
  network is the controller. The loop of \<^verbatim>\<open>saveState\<close> is summed up with it
  (\<open>saveState_each_eq\<close>, \<open>fold_saveState_each\<close> below).
\<close>

definition save_one ::
  "nat \<Rightarrow> bool \<Rightarrow> (string \<rightharpoonup> snapshot) \<Rightarrow> network \<Rightarrow> network \<times> (nat \<times> command) list" where
  "save_one controller is_controller m network =
     (if is_controller \<and> \<not> bnc_hasNetwork (ircClient network) then (network, [])
      else
        let bncName = bncname (connection network);
            snap = (case m bncName of Some s \<Rightarrow> s | None \<Rightarrow> empty_snapshot);
            tags = diff_tags network snap
        in
          if \<not> truthy (snap_name snap) \<and> truthy (js_get (tag_host tags)) \<and>
             truthy (js_get (tag_port tags)) \<and> truthy (js_get (tag_nick tags))
          then (network\<lparr> connection := (connection network)\<lparr> bncname := name network \<rparr> \<rparr>,
                [(controller,
                  AddNetwork (name network) (js_get (tag_host tags)) (js_get (tag_port tags))
                    (js_get (tag_tls tags)) (js_get (tag_nick tags)) (js_get (tag_user tags))
                    (js_get (tag_password tags)))])
          else if truthy (snap_name snap)
          then (network, [(controller, SaveNetwork bncName tags)])
          else (network, []))"

section \<open>Connection rewriter\<close>

text \<open>
  The first handler of \<^verbatim>\<open>network.connecting\<close> (lines 291-310), for the event's network \<open>r\<close>.
  The template literal of line 303 converts the configured name and password to strings.
\<close>

definition tunnel_password :: "bnc_config \<Rightarrow> string \<Rightarrow> string" where
  "tunnel_password b netname =
     js_to_string (bnc_username b) @ ''/'' @ netname @ '':'' @ js_to_string (bnc_password b)"

definition on_connecting_rewrite :: "nat \<Rightarrow> provider \<Rightarrow> provider" where
  "on_connecting_rewrite r p =
     (if bnc_enabled (bnc p) \<and> rewriteConnections p then
        let network = heap p r;
            netname = bncname (connection network);
            c1 = (ircClient network)\<lparr> opt_host := bnc_server (bnc p),
                   opt_port := bnc_port (bnc p), opt_tls := bnc_tls (bnc p) \<rparr>;
            c2 = (if truthy (bnc_password (bnc p))
                  then c1\<lparr> opt_password := Str (tunnel_password (bnc p) netname) \<rparr> else c1)
        in p\<lparr> heap := (heap p)
                 (r := network\<lparr> connection := (connection network)\<lparr> direct := bnc_direct (bnc p) \<rparr>,
                                ircClient := c2\<lparr> opt_path := bnc_path (bnc p) \<rparr> \<rparr>) \<rparr>
      else p)"

section \<open>Naming allocator\<close>

text \<open>Reading a decimal number back, to bound the loop of the allocator: the numbers that occur
  after \<open>Network\<close> in the names of the networks are bounded.\<close>

definition digit_val :: "char \<Rightarrow> nat" where
  "digit_val c = of_char c - 48"

definition nat_of_string :: "string \<Rightarrow> nat" where
  "nat_of_string s = foldl (\<lambda>a c. 10 * a + digit_val c) 0 s"

lemma digit_val_digit_char: "d < 10 \<Longrightarrow> digit_val (digit_char d) = d"
proof -
  assume "d < 10"
  then have "d = 0 \<or> d = 1 \<or> d = 2 \<or> d = 3 \<or> d = 4 \<or> d = 5 \<or> d = 6 \<or> d = 7 \<or>
      d = 8 \<or> d = 9"
    by arith
  then show ?thesis
    by (elim disjE) (simp_all add: digit_val_def digit_char_def)
qed

lemma nat_of_string_of_nat: "nat_of_string (string_of_nat n) = n"
proof (induction n rule: string_of_nat.induct)
  case (1 n)
  show ?case
  proof (cases "n < 10")
    case True
    then show ?thesis
      by (simp add: string_of_nat.simps[of n] nat_of_string_def digit_val_digit_char)
  next
    case False
    with 1 have "nat_of_string (string_of_nat (n div 10)) = n div 10" by simp
    with False show ?thesis
      by (simp add: string_of_nat.simps[of n] nat_of_string_def digit_val_digit_char)
  qed
qed

definition network_number :: "string \<Rightarrow> nat" where
  "network_number s = nat_of_string (drop 7 s)"

lemma network_number_name: "network_number (''Network'' @ string_of_nat k) = k"
  by (simp add: network_number_def nat_of_string_of_nat)

text \<open>The two lookups of lines 347-352: the first network in stored order with the display name
  \<open>n\<close>, or when there is none the first with the relay name \<open>n\<close>.\<close>

definition find_existing :: "provider \<Rightarrow> string \<Rightarrow> nat option" where
  "find_existing p n =
     (case find (\<lambda>i. name (heap p i) = n) (networks p) of
        Some x \<Rightarrow> Some x
      | None \<Rightarrow> find (\<lambda>i. bncname (connection (heap p i)) = n) (networks p))"

definition name_bound :: "provider \<Rightarrow> nat" where
  "name_bound p = Suc (Max (insert 0 ((\<lambda>i. max (network_number (name (heap p i)))
       (network_number (bncname (connection (heap p i))))) ` set (networks p))))"

lemma find_existing_Some:
  assumes "find_existing p n = Some x"
  shows "x \<in> set (networks p) \<and> (name (heap p x) = n \<or> bncname (connection (heap p x)) = n)"
  using assms
  by (auto simp: find_existing_def find_Some_iff split: option.splits)

lemma find_existing_None:
  assumes "find_existing p n = None" "x \<in> set (networks p)"
  shows "name (heap p x) \<noteq> n \<and> bncname (connection (heap p x)) \<noteq> n"
  using assms
  by (auto simp: find_existing_def find_None_iff split: option.splits)

lemma find_existing_bound:
  assumes "find_existing p (''Network'' @ string_of_nat k) = Some x"
  shows "k < name_bound p"
proof -
  let ?f = "\<lambda>i. max (network_number (name (heap p i))) (network_number (bncname (connection (heap p i))))"
  from find_existing_Some[OF assms] have x: "x \<in> set (networks p)" and
    nm: "name (heap p x) = ''Network'' @ string_of_nat k \<or> bncname (connection (heap p x)) = ''Network'' @ string_of_nat k"
    by auto
  from nm have "k \<le> ?f x"
  proof
    assume a: "name (heap p x) = ''Network'' @ string_of_nat k"
    have "network_number (name (heap p x)) = k"
      unfolding a by (rule network_number_name)
    then show ?thesis by simp
  next
    assume a: "bncname (connection (heap p x)) = ''Network'' @ string_of_nat k"
    have "network_number (bncname (connection (heap p x))) = k"
      unfolding a by (rule network_number_name)
    then show ?thesis by simp
  qed
  also have "?f x \<le> Max (insert 0 (?f ` set (networks p)))"
    using x by (intro Max_ge) auto
  finally show ?thesis by (simp add: name_bound_def)
qed

text \<open>
  The loop of lines 344-360 for the new network, from the counter \<open>currentNum\<close>: it ends by naming
  the network when the lookup finds nothing or finds the network itself. The counter is a natural
  number (the loop cannot reach the numbers JavaScript no longer counts exactly).
\<close>

function name_loop :: "nat \<Rightarrow> nat \<Rightarrow> provider \<Rightarrow> provider" where
  "name_loop network currentNum p =
     (let existingNet = find_existing p (''Network'' @ string_of_nat currentNum) in
      if existingNet = None \<or> existingNet = Some network
      then p\<lparr> heap := (heap p)
             (network := (heap p network)\<lparr> name := ''Network'' @ string_of_nat currentNum \<rparr>) \<rparr>
      else name_loop network (Suc currentNum) p)"
  by pat_completeness auto
termination
proof (relation "measure (\<lambda>(network, currentNum, p). name_bound p - currentNum)")
  show "wf (measure (\<lambda>(network, currentNum, p). name_bound p - currentNum))" by simp
next
  fix network currentNum p x
  assume "x = find_existing p (''Network'' @ string_of_nat currentNum)"
    and "\<not> (x = None \<or> x = Some network)"
  then obtain y where "find_existing p (''Network'' @ string_of_nat currentNum) = Some y"
    by (cases x) auto
  from find_existing_bound[OF this]
  show "((network, Suc currentNum, p), (network, currentNum, p))
      \<in> measure (\<lambda>(network, currentNum, p). name_bound p - currentNum)"
    by simp
qed

declare name_loop.simps [simp del]

text \<open>The handler of \<^verbatim>\<open>network.new\<close> (lines 336-362): a network that has a relay name keeps its
  name. The middleware that line 340 installs on the client is outside the model.\<close>

definition on_network_new :: "nat \<Rightarrow> provider \<Rightarrow> provider" where
  "on_network_new r p = (if bncname (connection (heap p r)) = [] then name_loop r 1 p else p)"

section \<open>Buffer reconciliation\<close>

text \<open>\<^verbatim>\<open>toLowerCase\<close> on the letters of ASCII; other characters are left as they are.\<close>

definition lower_char :: "char \<Rightarrow> char" where
  "lower_char c =
     (case map_of (zip ''ABCDEFGHIJKLMNOPQRSTUVWXYZ'' ''abcdefghijklmnopqrstuvwxyz'') c of
        Some l \<Rightarrow> l
      | None \<Rightarrow> c)"

definition toLowerCase :: "string \<Rightarrow> string" where
  "toLowerCase s = map lower_char s"

text \<open>An entry of the list \<^verbatim>\<open>client.bnc.getBuffers\<close> resolves to.\<close>

record remote_buffer =
  rb_name :: string
  rb_joined :: jsval
  rb_seen :: jsval
  rb_topic :: jsval

text \<open>An entry of the list \<^verbatim>\<open>client.bnc.getNetworks\<close> resolves to (the format of lines
  168-177, with the \<^verbatim>\<open>password\<close> and \<^verbatim>\<open>user\<close> that lines 184-186 read).\<close>

record remote_network =
  rn_name :: string
  rn_host :: jsval
  rn_port :: jsval
  rn_tls :: jsval
  rn_nick :: jsval
  rn_password :: jsval
  rn_user :: jsval

text \<open>
  What the provider is given from outside and the model takes as parameters: the relay's answers
  to \<^verbatim>\<open>getBuffers\<close> and \<^verbatim>\<open>getNetworks\<close> (asked through the client of a network), the buffer and
  the network the state store makes before the caller's values are filled in, and the
  milliseconds \<^verbatim>\<open>new Date(x).getTime()\<close> gives for a value.
\<close>

record env =
  getBuffers :: "nat \<Rightarrow> string \<Rightarrow> remote_buffer list"
  getNetworks :: "nat \<Rightarrow> remote_network list"
  new_buffer :: "string \<Rightarrow> buffer"
  new_network :: network
  date_getTime :: "jsval \<Rightarrow> jsval"

text \<open>Modelled from the spec: \<^verbatim>\<open>buffer.isChannel()\<close> and \<^verbatim>\<open>buffer.isQuery()\<close> are not under
  \<^verbatim>\<open>src/\<close>. Section 3 gives a buffer a kind, one of channel, query and other.\<close>

definition isChannel :: "buffer \<Rightarrow> bool" where
  "isChannel b = (buf_kind b = Channel)"

definition isQuery :: "buffer \<Rightarrow> bool" where
  "isQuery b = (buf_kind b = Query)"

text \<open>
  Modelled from the spec: \<^verbatim>\<open>state.addBuffer(networkid, name)\<close> is not under \<^verbatim>\<open>src/\<close>. Section 4.4:
  find-or-create a local buffer by case-insensitive name within the network. \<open>buffer_index\<close> is
  the position of the first buffer of that name, \<open>addBuffer\<close> gives the network's buffers and the
  position of the buffer it returns; a created buffer is the store's new buffer under the name
  asked for, at the end.
\<close>

fun buffer_index :: "string \<Rightarrow> buffer list \<Rightarrow> nat option" where
  "buffer_index n [] = None"
| "buffer_index n (b # bs) =
     (if toLowerCase (buf_name b) = toLowerCase n then Some 0
      else map_option Suc (buffer_index n bs))"

definition addBuffer :: "(string \<Rightarrow> buffer) \<Rightarrow> string \<Rightarrow> buffer list \<Rightarrow> buffer list \<times> nat" where
  "addBuffer mk n bs =
     (case buffer_index n bs of
        Some i \<Rightarrow> (bs, i)
      | None \<Rightarrow> (bs @ [(mk n)\<lparr> buf_name := n \<rparr>], length bs))"

text \<open>
  Modelled from the spec: \<^verbatim>\<open>state.removeBuffer(buffer)\<close> is not under \<^verbatim>\<open>src/\<close>. Section 4.4:
  the buffer is removed from its network. The removal is taken not to disturb the loop that is
  running over the network's buffers: every buffer present when the loop starts is visited.
\<close>

definition removeBuffer :: "buffer \<Rightarrow> buffer list \<Rightarrow> buffer list" where
  "removeBuffer b bs = remove1 b bs"

text \<open>The assignments of lines 133-144 to the buffer \<^verbatim>\<open>addBuffer\<close> returned.\<close>

definition set_fields :: "env \<Rightarrow> remote_buffer \<Rightarrow> buffer \<Rightarrow> buffer" where
  "set_fields e buffer newBuffer =
     (let b1 = (if truthy (rb_joined buffer)
                then newBuffer\<lparr> buf_enabled := True, buf_joined := True \<rparr>
                else newBuffer\<lparr> buf_enabled := False, buf_joined := False \<rparr>);
          b2 = (if truthy (rb_seen buffer)
                then b1\<lparr> buf_last_read := date_getTime e (rb_seen buffer) \<rparr> else b1)
      in b2\<lparr> buf_topic := js_or (rb_topic buffer) (Str []) \<rparr>)"

text \<open>The callback of the first loop of \<^verbatim>\<open>syncBncNetwork\<close> (lines 131-149), on the network's
  buffers and the raw lines sent so far; \<open>connected\<close> is \<^verbatim>\<open>bncNetwork.state === 'connected'\<close>.\<close>

definition sync_buffer ::
  "env \<Rightarrow> bool \<Rightarrow> remote_buffer \<Rightarrow> buffer list \<times> string list \<Rightarrow> buffer list \<times> string list" where
  "sync_buffer e connected buffer acc =
     (let (bs, raws) = acc;
          (bs1, i) = addBuffer (new_buffer e) (rb_name buffer) bs;
          newBuffer = set_fields e buffer (bs1 ! i)
      in (bs1[i := newBuffer],
          if connected \<and> isChannel newBuffer \<and> buf_joined newBuffer
          then raws @ [''NAMES '' @ buf_name newBuffer] else raws))"

text \<open>The callback of the second loop (lines 152-164), on the network's buffers.\<close>

definition remove_stale :: "remote_buffer list \<Rightarrow> buffer \<Rightarrow> buffer list \<Rightarrow> buffer list" where
  "remove_stale remote clientBuffer bs =
     (if \<not> isChannel clientBuffer \<and> \<not> isQuery clientBuffer then bs
      else
        let existingBuffers =
              filter (\<lambda>bncBuffer. toLowerCase (rb_name bncBuffer) = toLowerCase (buf_name clientBuffer))
                remote
        in if length existingBuffers = 0 then removeBuffer clientBuffer bs else bs)"

text \<open>The two loops of \<^verbatim>\<open>syncBncNetwork\<close> on a network's buffers, for the list \<open>remote\<close> the relay
  answered: the buffers afterwards and the raw lines sent. The second loop runs over the buffers
  as the first loop left them.\<close>

definition reconcile ::
  "env \<Rightarrow> bool \<Rightarrow> remote_buffer list \<Rightarrow> buffer list \<Rightarrow> buffer list \<times> string list" where
  "reconcile e connected remote bs =
     (let (bs1, raws) = fold (sync_buffer e connected) remote (bs, []);
          bs2 = fold (remove_stale remote) bs1 bs1
      in (bs2, raws))"

text \<open>\<^verbatim>\<open>syncBncNetwork\<close> (lines 127-165) for the network \<open>r\<close>; the raw lines go through its own
  client.\<close>

definition syncBncNetwork :: "env \<Rightarrow> nat \<Rightarrow> provider \<Rightarrow> provider" where
  "syncBncNetwork e r p =
     (let bncNetwork = heap p r;
          remote = getBuffers e r (bncname (connection bncNetwork));
          (bs, raws) = reconcile e (net_state bncNetwork = Connected) remote (buffers bncNetwork)
      in p\<lparr> heap := (heap p)(r := bncNetwork\<lparr> buffers := bs \<rparr>),
            sent := sent p @ map (\<lambda>l. (r, Raw l)) raws \<rparr>)"

section \<open>Network merger and login sequence\<close>

text \<open>
  Modelled from the spec: \<^verbatim>\<open>state.getNetworkFromBncName(name)\<close> is not under \<^verbatim>\<open>src/\<close>.
  Sections 4.3 and 6: the local network keyed by that relay name, the first in stored order.
\<close>

definition getNetworkFromBncName :: "provider \<Rightarrow> string \<Rightarrow> nat option" where
  "getNetworkFromBncName p n = find (\<lambda>i. bncname (connection (heap p i)) = n) (networks p)"

text \<open>The third argument of \<^verbatim>\<open>state.addNetwork\<close> at lines 180-187.\<close>

record server_info =
  si_server :: jsval
  si_port :: jsval
  si_tls :: jsval
  si_password :: jsval
  si_bncname :: string
  si_username :: jsval

text \<open>
  Modelled from the spec: \<^verbatim>\<open>state.addNetwork(name, nick, serverInfo)\<close> is not under \<^verbatim>\<open>src/\<close>.
  Sections 4.3 and 6: a local network is created with the name, the nick and the given
  connection values. The new network is the store's new network under the next id, at the end
  of the list; the id and the provider are returned.
\<close>

definition addNetwork ::
  "network \<Rightarrow> string \<Rightarrow> jsval \<Rightarrow> server_info \<Rightarrow> provider \<Rightarrow> nat \<times> provider" where
  "addNetwork proto n k info p =
     (next_id p,
      p\<lparr> networks := networks p @ [next_id p],
         next_id := Suc (next_id p),
         heap := (heap p)
           (next_id p := proto\<lparr> name := n, password := si_password info,
              username := si_username info,
              connection := (connection proto)\<lparr> server := si_server info,
                port := si_port info, tls := si_tls info, nick := k,
                bncname := si_bncname info \<rparr> \<rparr>) \<rparr>)"

text \<open>
  \<^verbatim>\<open>addNetworkToState\<close> (lines 167-191) for an entry of the relay's list. The awaited
  \<^verbatim>\<open>syncBncNetwork\<close> is taken to complete at once.
\<close>

definition addNetworkToState :: "env \<Rightarrow> remote_network \<Rightarrow> provider \<Rightarrow> provider" where
  "addNetworkToState e network p =
     (let (net, p1) =
            (case getNetworkFromBncName p (rn_name network) of
               Some i \<Rightarrow> (i, p)
             | None \<Rightarrow>
                 addNetwork (new_network e) (rn_name network) (js_or (rn_nick network) (Str []))
                   \<lparr> si_server = rn_host network, si_port = rn_port network,
                     si_tls = rn_tls network, si_password = rn_password network,
                     si_bncname = rn_name network, si_username = rn_user network \<rparr> p)
      in syncBncNetwork e net p1)"

text \<open>\<^verbatim>\<open>monitorNetworkChanges\<close> (lines 277-282): the snapshot; the debounced watch it installs is
  outside the model.\<close>

definition monitorNetworkChanges :: "provider \<Rightarrow> provider" where
  "monitorNetworkChanges p = snapshotCurrentNetworks p"

text \<open>\<^verbatim>\<open>s.split(c)\<close> for a separator of one character: never empty, one more piece than there
  are separators.\<close>

fun split_on :: "char \<Rightarrow> string \<Rightarrow> string list" where
  "split_on c [] = [[]]"
| "split_on c (x # xs) =
     (let r = split_on c xs in if x = c then [] # r else (x # hd r) # tl r)"

datatype js_error = TypeError

text \<open>
  \<^verbatim>\<open>initAndAddNetworks\<close> (lines 95-125) for the network \<open>r\<close> that completed its login. The result
  is the exception raised, if any, and the provider as it is then. \<^verbatim>\<open>network.password.split\<close>
  raises a \<^verbatim>\<open>TypeError\<close> unless the password is a string; the destructuring of line 112 reads
  \<^verbatim>\<open>undefined\<close> for a second piece that is not there. The calls of line 109 are taken to complete
  one after the other (the source does not await them; what they do later touches buffers and raw
  lines only, which the rest of the function does not read).
\<close>

definition initAndAddNetworks :: "env \<Rightarrow> nat \<Rightarrow> provider \<Rightarrow> js_error option \<times> provider" where
  "initAndAddNetworks e r p0 =
     (let p1 = p0\<lparr> bnc := (bnc p0)\<lparr> bnc_registered := True \<rparr> \<rparr>;
          p2 = p1\<lparr> heap := (heap p1)
                 (r := (heap p1 r)\<lparr> hidden := \<not> bnc_hasNetwork (ircClient (heap p1 r)) \<rparr>) \<rparr>;
          bncNetworks = getNetworks e r;
          p3 = fold (addNetworkToState e) bncNetworks p2;
          network = heap p3 r
      in case password network of
           Str pw \<Rightarrow>
             let parts = split_on CHR '':'' pw;
                 username = hd (split_on CHR ''/'' (hd parts));
                 password = (if 1 < length parts then Str (parts ! 1) else Undefined)
             in (None,
                 monitorNetworkChanges
                   (p3\<lparr> bnc := (bnc p3)\<lparr> bnc_username := Str username,
                          bnc_password := password,
                          bnc_server := server (connection network),
                          bnc_port := port (connection network),
                          bnc_tls := tls (connection network),
                          bnc_direct := direct (connection network),
                          bnc_path := js_or (path (connection network)) (Str []),
                          bnc_enabled := True \<rparr> \<rparr>))
         | _ \<Rightarrow> (Some TypeError, p3))"

section \<open>Reconciliation, summed up\<close>

text \<open>
  The notions the properties of reconciliation are stated and proved with: the key under which a
  buffer is looked up, the first loop's callback as an update of the first buffer of a name or an
  append (\<open>upsert\<close>), the test of the second loop (\<open>stale\<close>), and the assignments of lines 133-144
  as a value (\<open>asg\<close>): which fields are written, and with what.
\<close>

definition buf_key :: "buffer \<Rightarrow> string" where
  "buf_key b = toLowerCase (buf_name b)"

definition remote_key :: "remote_buffer \<Rightarrow> string" where
  "remote_key rb = toLowerCase (rb_name rb)"

fun map_first :: "('a \<Rightarrow> bool) \<Rightarrow> ('a \<Rightarrow> 'a) \<Rightarrow> 'a list \<Rightarrow> 'a list" where
  "map_first P g [] = []"
| "map_first P g (x # xs) = (if P x then g x # xs else x # map_first P g xs)"

definition upsert :: "env \<Rightarrow> remote_buffer \<Rightarrow> buffer list \<Rightarrow> buffer list" where
  "upsert e rb bs =
     (if remote_key rb \<in> buf_key ` set bs
      then map_first (\<lambda>b. buf_key b = remote_key rb) (set_fields e rb) bs
      else bs @ [set_fields e rb ((new_buffer e (rb_name rb))\<lparr> buf_name := rb_name rb \<rparr>)])"

definition stale :: "remote_buffer list \<Rightarrow> buffer \<Rightarrow> bool" where
  "stale remote b =
     ((buf_kind b = Channel \<or> buf_kind b = Query) \<and> buf_key b \<notin> remote_key ` set remote)"

definition name_kind :: "buffer \<Rightarrow> string \<times> buffer_kind" where
  "name_kind b = (buf_name b, buf_kind b)"

record asg =
  asg_enabled :: "bool option"
  asg_joined :: "bool option"
  asg_last_read :: "jsval option"
  asg_topic :: "jsval option"

definition no_asg :: asg where
  "no_asg = \<lparr> asg_enabled = None, asg_joined = None, asg_last_read = None, asg_topic = None \<rparr>"

definition asg_of :: "env \<Rightarrow> remote_buffer \<Rightarrow> asg" where
  "asg_of e rb =
     \<lparr> asg_enabled = Some (truthy (rb_joined rb)),
       asg_joined = Some (truthy (rb_joined rb)),
       asg_last_read = (if truthy (rb_seen rb) then Some (date_getTime e (rb_seen rb)) else None),
       asg_topic = Some (js_or (rb_topic rb) (Str [])) \<rparr>"

text \<open>Writing an assignment to a buffer, and one assignment after another.\<close>

definition act :: "asg \<Rightarrow> buffer \<Rightarrow> buffer" where
  "act a b =
     b\<lparr> buf_enabled := (case asg_enabled a of Some v \<Rightarrow> v | None \<Rightarrow> buf_enabled b),
        buf_joined := (case asg_joined a of Some v \<Rightarrow> v | None \<Rightarrow> buf_joined b),
        buf_last_read := (case asg_last_read a of Some v \<Rightarrow> v | None \<Rightarrow> buf_last_read b),
        buf_topic := (case asg_topic a of Some v \<Rightarrow> v | None \<Rightarrow> buf_topic b) \<rparr>"

definition after :: "asg \<Rightarrow> asg \<Rightarrow> asg" where
  "after x y =
     \<lparr> asg_enabled = (case asg_enabled x of Some v \<Rightarrow> Some v | None \<Rightarrow> asg_enabled y),
       asg_joined = (case asg_joined x of Some v \<Rightarrow> Some v | None \<Rightarrow> asg_joined y),
       asg_last_read = (case asg_last_read x of Some v \<Rightarrow> Some v | None \<Rightarrow> asg_last_read y),
       asg_topic = (case asg_topic x of Some v \<Rightarrow> Some v | None \<Rightarrow> asg_topic y) \<rparr>"

text \<open>Assignments pending per key, written to the first buffer of each key.\<close>

fun apply_pending :: "(string \<Rightarrow> asg) \<Rightarrow> buffer list \<Rightarrow> buffer list" where
  "apply_pending d [] = []"
| "apply_pending d (b # bs) = act (d (buf_key b)) b # apply_pending (d(buf_key b := no_asg)) bs"

definition pend :: "env \<Rightarrow> remote_buffer list \<Rightarrow> (string \<Rightarrow> asg) \<Rightarrow> (string \<Rightarrow> asg)" where
  "pend e w d = fold (\<lambda>rb d. d(remote_key rb := after (asg_of e rb) (d (remote_key rb)))) w d"

section \<open>Example values\<close>

text \<open>The constructor's values (lines 10-36), and a blank network for the examples.\<close>

definition initial_bnc :: bnc_config where
  "initial_bnc = \<lparr> bnc_enabled = False, bnc_username = Str [], bnc_password = Str [],
     bnc_server = Str [], bnc_port = Num 6667, bnc_tls = JBool False, bnc_direct = JBool False,
     bnc_path = Str [], bnc_registered = False \<rparr>"

definition blank_network :: network where
  "blank_network = \<lparr> name = [], net_state = Disconnected, hidden = False, password = Str [],
     username = Str [],
     connection = \<lparr> server = Str [], port = Num 6667, tls = JBool False, nick = Str [],
       bncname = [], direct = JBool False, path = Str [] \<rparr>,
     ircClient = \<lparr> opt_host = Str [], opt_port = Num 6667, opt_tls = JBool False,
       opt_password = Str [], opt_path = Str [], cap_bouncer = False, bnc_hasNetwork = False,
       bnc_tag_network = [] \<rparr>,
     buffers = [] \<rparr>"

definition new_provider :: provider where
  "new_provider = \<lparr> controllerNetwork = None, networks = [], heap = (\<lambda>_. blank_network),
     next_id = 0, networksSnapshot = Map.empty, bnc = initial_bnc, rewriteConnections = True,
     sent = [], logged = [] \<rparr>"

text \<open>A network in a given connection state, with or without the bouncer capability.\<close>

definition example_net :: "string \<Rightarrow> conn_state \<Rightarrow> bool \<Rightarrow> network" where
  "example_net n s c = blank_network\<lparr> name := n, net_state := s,
     ircClient := (ircClient blank_network)\<lparr> cap_bouncer := c \<rparr> \<rparr>"

text \<open>The networks \<open>[A(disconnected), B(connected, no cap), C(connected, cap)]\<close>, nothing cached.\<close>

definition abc_provider :: provider where
  "abc_provider = new_provider\<lparr> networks := [0, 1, 2], next_id := 3,
     heap := (\<lambda>_. blank_network)
       (0 := example_net ''A'' Disconnected False,
        1 := example_net ''B'' Connected False,
        2 := example_net ''C'' Connected True) \<rparr>"

text \<open>A cached controller that is connected and has lost the capability, beside a network that
  is connected and has it.\<close>

definition stale_provider :: provider where
  "stale_provider = new_provider\<lparr> controllerNetwork := Some 0, networks := [0, 1], next_id := 2,
     heap := (\<lambda>_. blank_network)
       (0 := example_net ''old'' Connected False,
        1 := example_net ''new'' Connected True) \<rparr>"

text \<open>
  A session for \<^verbatim>\<open>saveState\<close>. Network 0 is the bare control connection; network 1 is
  \<open>freenode\<close>, known to the relay. After a snapshot the user changes the nick of \<open>freenode\<close> from
  \<open>alice\<close> to \<open>bob\<close> and adds three networks: 2 with host, port and nick entered, 3 without a
  nick, 4 with a nick and a port and the host still the empty string.
\<close>

definition control_net :: network where
  "control_net = blank_network\<lparr> name := ''Network1'', net_state := Connected,
     ircClient := (ircClient blank_network)\<lparr> cap_bouncer := True \<rparr> \<rparr>"

definition freenode_net :: "string \<Rightarrow> network" where
  "freenode_net n = blank_network\<lparr> name := ''freenode'',
     connection := (connection blank_network)\<lparr> server := Str ''irc.example.org'',
       port := Num 6667, nick := Str n, bncname := ''freenode'' \<rparr> \<rparr>"

definition draft_net :: "string \<Rightarrow> string \<Rightarrow> string \<Rightarrow> network" where
  "draft_net n h k = blank_network\<lparr> name := n,
     connection := (connection blank_network)\<lparr> server := Str h, port := Num 6697,
       nick := Str k \<rparr> \<rparr>"

definition saved_provider :: provider where
  "saved_provider = snapshotCurrentNetworks (new_provider\<lparr> networks := [0, 1], next_id := 2,
     heap := (\<lambda>_. blank_network)(0 := control_net, 1 := freenode_net ''alice'') \<rparr>)"

definition edited_provider :: provider where
  "edited_provider = saved_provider\<lparr> networks := [0, 1, 2, 3, 4], next_id := 5,
     heap := (\<lambda>_. blank_network)
       (0 := control_net,
        1 := freenode_net ''bob'',
        2 := draft_net ''Network2'' ''irc.libera.chat'' ''carol'',
        3 := draft_net ''Network3'' ''irc.oftc.net'' [],
        4 := draft_net ''Network4'' [] ''dave'') \<rparr>"

text \<open>
  A session in which the control connection itself has a relay name and so a snapshot entry,
  while its client reports no upstream network; after the snapshot its nick changes from
  \<open>alice\<close> to \<open>bob\<close>.
\<close>

definition bare_net :: "string \<Rightarrow> network" where
  "bare_net n = control_net\<lparr> connection := (connection control_net)\<lparr> nick := Str n,
     bncname := ''control'' \<rparr> \<rparr>"

definition bare_saved_provider :: provider where
  "bare_saved_provider = snapshotCurrentNetworks (new_provider\<lparr> networks := [0], next_id := 1,
     heap := (\<lambda>_. blank_network)(0 := bare_net ''alice'') \<rparr>)"

definition bare_edited_provider :: provider where
  "bare_edited_provider = bare_saved_provider\<lparr>
     heap := (\<lambda>_. blank_network)(0 := bare_net ''bob'') \<rparr>"

text \<open>The same session with the control connection lost.\<close>

definition offline_provider :: provider where
  "offline_provider = set_net_state 0 Disconnected edited_provider"

text \<open>A provider whose relay is \<open>bnc.example.net:6697\<close> over TLS, logged in as \<open>alice\<close> with the
  secret \<open>s3cret\<close>; network 1 is \<open>freenode\<close>.\<close>

definition relay_bnc :: bnc_config where
  "relay_bnc = initial_bnc\<lparr> bnc_enabled := True, bnc_username := Str ''alice'',
     bnc_password := Str ''s3cret'', bnc_server := Str ''bnc.example.net'',
     bnc_port := Num 6697, bnc_tls := JBool True, bnc_path := Str ''/irc'' \<rparr>"

definition relay_provider :: provider where
  "relay_provider = new_provider\<lparr> networks := [0, 1], next_id := 2, bnc := relay_bnc,
     heap := (\<lambda>_. blank_network)(0 := control_net, 1 := freenode_net ''bob'') \<rparr>"

text \<open>Networks named \<open>Network1\<close> and \<open>Network3\<close>, and a new network.\<close>

definition named_provider :: provider where
  "named_provider = new_provider\<lparr> networks := [0, 1, 2], next_id := 3,
     heap := (\<lambda>_. blank_network)
       (0 := blank_network\<lparr> name := ''Network1'' \<rparr>,
        1 := blank_network\<lparr> name := ''Network3'' \<rparr>,
        2 := blank_network\<lparr> name := ''New network'' \<rparr>) \<rparr>"


text \<open>A network whose relay name is \<open>Network1\<close>, and a new network that arrives named
  \<open>Network1\<close>.\<close>

definition clash_provider :: provider where
  "clash_provider = new_provider\<lparr> networks := [0, 1], next_id := 2,
     heap := (\<lambda>_. blank_network)
       (0 := blank_network\<lparr> name := ''libera'',
               connection := (connection blank_network)\<lparr> bncname := ''Network1'' \<rparr> \<rparr>,
        1 := blank_network\<lparr> name := ''Network1'' \<rparr>) \<rparr>"

text \<open>
  A relay for the examples of reconciliation: it reports the networks \<open>freenode\<close> and \<open>oldnet\<close>,
  and for \<open>freenode\<close> the buffers \<open>#chan\<close> (joined, seen at 1000) and \<open>#old\<close> (not joined). The
  state store makes a channel of a name that starts with \<open>#\<close> and a query of any other.
\<close>

definition freenode_entry :: remote_network where
  "freenode_entry = \<lparr> rn_name = ''freenode'', rn_host = Str ''irc.example.org'',
     rn_port = Num 6667, rn_tls = JBool False, rn_nick = Str ''bob'', rn_password = Undefined,
     rn_user = Undefined \<rparr>"

definition oldnet_entry :: remote_network where
  "oldnet_entry = \<lparr> rn_name = ''oldnet'', rn_host = Str ''irc.old.example'',
     rn_port = Num 6697, rn_tls = JBool True, rn_nick = Undefined, rn_password = Str ''pw'',
     rn_user = Str ''bob'' \<rparr>"

definition example_env :: env where
  "example_env =
     \<lparr> getBuffers = (\<lambda>r n. if n = ''freenode''
          then [\<lparr> rb_name = ''#chan'', rb_joined = JBool True, rb_seen = Num 1000,
                   rb_topic = Undefined \<rparr>,
                \<lparr> rb_name = ''#old'', rb_joined = JBool False, rb_seen = Undefined,
                   rb_topic = Str ''hi'' \<rparr>]
          else []),
       getNetworks = (\<lambda>r. [freenode_entry, oldnet_entry]),
       new_buffer = (\<lambda>n. \<lparr> buf_name = n,
          buf_kind = (if take 1 n = ''#'' then Channel else Query),
          buf_enabled = True, buf_joined = False, buf_last_read = Num 0, buf_topic = Str [] \<rparr>),
       new_network = blank_network,
       date_getTime = (\<lambda>v. v) \<rparr>"

text \<open>The network \<open>freenode\<close>, logged in through the relay as \<open>alice\<close>, with a server buffer, a
  channel the relay no longer has and a channel it has under another case.\<close>

definition chat_buffers :: "buffer list" where
  "chat_buffers =
     [\<lparr> buf_name = ''*'', buf_kind = Other, buf_enabled = True, buf_joined = False,
        buf_last_read = Num 0, buf_topic = Str [] \<rparr>,
      \<lparr> buf_name = ''#gone'', buf_kind = Channel, buf_enabled = True, buf_joined = True,
        buf_last_read = Num 5, buf_topic = Str [] \<rparr>,
      \<lparr> buf_name = ''#CHAN'', buf_kind = Channel, buf_enabled = False, buf_joined = False,
        buf_last_read = Num 5, buf_topic = Str ''t'' \<rparr>]"

definition chat_net :: network where
  "chat_net = (freenode_net ''bob'')\<lparr> net_state := Connected,
     password := Str ''alice/freenode:s3cret'',
     ircClient := (ircClient blank_network)\<lparr> cap_bouncer := True, bnc_hasNetwork := True,
       bnc_tag_network := ''freenode'' \<rparr>,
     buffers := chat_buffers \<rparr>"

definition chat_provider :: provider where
  "chat_provider = new_provider\<lparr> networks := [0], next_id := 1,
     heap := (\<lambda>_. blank_network)(0 := chat_net) \<rparr>"

text \<open>The same session with a login password that has no separator.\<close>

definition malformed_provider :: provider where
  "malformed_provider = chat_provider\<lparr> heap := (heap chat_provider)
     (0 := chat_net\<lparr> password := Str ''alice'' \<rparr>) \<rparr>"

text \<open>The same session with a secret that contains a colon.\<close>

definition colon_provider :: provider where
  "colon_provider = chat_provider\<lparr> heap := (heap chat_provider)
     (0 := chat_net\<lparr> password := Str ''alice/freenode:pa:ss'' \<rparr>) \<rparr>"

section \<open>Properties\<close>

subsection \<open>Controller election\<close>

text \<open>
  C1, as the code has it. Every non-null result of \<^verbatim>\<open>getController()\<close> is a connected network.
  A cached controller that is still connected is returned as it is, with the provider unchanged:
  its capability is not looked at again. When nothing is cached, or the cached network is no
  longer connected, the result is the first network in stored order that is connected and has the
  bouncer capability enabled (or null when there is none), and it is cached. For the networks
  \<open>[A(disconnected), B(connected, no cap), C(connected, cap)]\<close> the result is \<open>C\<close>, and once \<open>C\<close>
  has disconnected the next call returns null, not \<open>B\<close>.
\<close>

theorem getController_elects:
  "(\<forall>r. fst (getController p) = Some r \<longrightarrow> net_state (heap p r) = Connected) \<and>
   (\<forall>c. controllerNetwork p = Some c \<and> net_state (heap p c) = Connected \<longrightarrow>
        getController p = (Some c, p)) \<and>
   ((\<forall>c. controllerNetwork p = Some c \<longrightarrow> net_state (heap p c) \<noteq> Connected) \<longrightarrow>
        getController p =
          (find (usable p) (networks p),
           p\<lparr> controllerNetwork := find (usable p) (networks p) \<rparr>)) \<and>
   (\<forall>r. find (usable p) (networks p) = Some r \<longrightarrow>
        (\<exists>i < length (networks p). networks p ! i = r \<and>
           net_state (heap p r) = Connected \<and> cap_bouncer (ircClient (heap p r)) \<and>
           (\<forall>j < i. \<not> usable p (networks p ! j)))) \<and>
   fst (getController abc_provider) = Some 2 \<and>
   fst (getController (set_net_state 2 Disconnected (snd (getController abc_provider)))) = None"
proof (intro conjI)
  show "\<forall>r. fst (getController p) = Some r \<longrightarrow> net_state (heap p r) = Connected"
    by (auto simp: Let_def getController_def scanController_def usable_def find_Some_iff
        split: option.splits)
  show "\<forall>c. controllerNetwork p = Some c \<and> net_state (heap p c) = Connected \<longrightarrow>
      getController p = (Some c, p)"
    by (simp add: getController_def)
  show "(\<forall>c. controllerNetwork p = Some c \<longrightarrow> net_state (heap p c) \<noteq> Connected) \<longrightarrow>
      getController p =
        (find (usable p) (networks p), p\<lparr> controllerNetwork := find (usable p) (networks p) \<rparr>)"
    by (auto simp: Let_def getController_def scanController_def split: option.splits)
  show "\<forall>r. find (usable p) (networks p) = Some r \<longrightarrow>
      (\<exists>i < length (networks p). networks p ! i = r \<and>
         net_state (heap p r) = Connected \<and> cap_bouncer (ircClient (heap p r)) \<and>
         (\<forall>j < i. \<not> usable p (networks p ! j)))"
    by (auto simp: find_Some_iff usable_def)
  show "fst (getController abc_provider) = Some 2"
    by (simp add: Let_def getController_def scanController_def abc_provider_def
        new_provider_def example_net_def blank_network_def usable_def)
  show "fst (getController (set_net_state 2 Disconnected (snd (getController abc_provider)))) = None"
    by (simp add: Let_def getController_def scanController_def set_net_state_def
        abc_provider_def new_provider_def example_net_def blank_network_def usable_def)
qed

text \<open>
  Witness for C1: on the example list nothing is cached, the scan elects network 2, which is
  connected with the capability; the second call finds it cached and still connected and returns
  it with the provider unchanged.
\<close>

theorem getController_elects_witness:
  "controllerNetwork abc_provider = None \<and>
   getController abc_provider = (Some 2, abc_provider\<lparr> controllerNetwork := Some 2 \<rparr>) \<and>
   net_state (heap abc_provider 2) = Connected \<and>
   cap_bouncer (ircClient (heap abc_provider 2)) \<and>
   controllerNetwork (abc_provider\<lparr> controllerNetwork := Some 2 \<rparr>) = Some 2 \<and>
   getController (abc_provider\<lparr> controllerNetwork := Some 2 \<rparr>) =
     (Some 2, abc_provider\<lparr> controllerNetwork := Some 2 \<rparr>)"
proof -
  have none: "controllerNetwork abc_provider = None"
    by (simp add: abc_provider_def new_provider_def)
  have found: "find (usable abc_provider) (networks abc_provider) = Some 2"
    by (simp add: abc_provider_def new_provider_def example_net_def blank_network_def usable_def)
  have conn: "net_state (heap abc_provider 2) = Connected"
    by (simp add: abc_provider_def new_provider_def example_net_def)
  have cap: "cap_bouncer (ircClient (heap abc_provider 2))"
    by (simp add: abc_provider_def new_provider_def example_net_def)
  from getController_elects [of abc_provider] none found
  have first: "getController abc_provider = (Some 2, abc_provider\<lparr> controllerNetwork := Some 2 \<rparr>)"
    by simp
  from getController_elects [of "abc_provider\<lparr> controllerNetwork := Some 2 \<rparr>"] conn
  have second: "getController (abc_provider\<lparr> controllerNetwork := Some 2 \<rparr>) =
      (Some 2, abc_provider\<lparr> controllerNetwork := Some 2 \<rparr>)"
    by simp
  from none first conn cap second show ?thesis by simp
qed

text \<open>
  Counterexample to C1 as stated: the cached controller is connected and no longer has the
  bouncer capability, while another network is connected and has it. The call returns the cached
  network; it is not re-derived, although the scan would elect network 1.
\<close>

theorem getController_cached_without_capability:
  "fst (getController stale_provider) = Some 0 \<and>
   \<not> cap_bouncer (ircClient (heap stale_provider 0)) \<and>
   find (usable stale_provider) (networks stale_provider) = Some 1"
  by (simp add: getController_def stale_provider_def new_provider_def example_net_def
      blank_network_def usable_def)

subsection \<open>Saving\<close>

text \<open>What a call of \<^verbatim>\<open>getController\<close> returns and leaves in the cache.\<close>

lemma getController_Some:
  assumes "fst (getController p) = Some c"
  shows "getController p = (Some c, p\<lparr> controllerNetwork := Some c \<rparr>)"
    and "net_state (heap p c) = Connected"
  using assms
  by (auto simp: getController_def scanController_def Let_def usable_def find_Some_iff split: option.splits if_splits)

lemma getController_None:
  assumes "fst (getController p) = None"
  shows "getController p = (None, p\<lparr> controllerNetwork := None \<rparr>)"
  using assms
  by (auto simp: getController_def scanController_def Let_def split: option.splits if_splits)

lemma getController_cached:
  "controllerNetwork p = Some c \<Longrightarrow> net_state (heap p c) = Connected \<Longrightarrow> getController p = (Some c, p)"
  by (simp add: getController_def)

text \<open>The callback of \<^verbatim>\<open>saveState\<close> while the controller is cached and connected, and the
  whole loop over networks that are listed once each.\<close>

lemma save_one_state: "net_state (fst (save_one c b m n)) = net_state n"
  by (simp add: save_one_def Let_def)

lemma saveState_each_eq:
  assumes "controllerNetwork p = Some c" "net_state (heap p c) = Connected"
  shows "saveState_each c r p =
     p\<lparr> heap := (heap p)(r := fst (save_one c (r = c) (networksSnapshot p) (heap p r))),
        sent := sent p @ snd (save_one c (r = c) (networksSnapshot p) (heap p r)) \<rparr>"
  unfolding saveState_each_def getController_cached[OF assms] save_one_def
  by (auto simp: Let_def)

lemma fold_saveState_each:
  assumes "controllerNetwork p = Some c" "net_state (heap p c) = Connected" "distinct rs"
  shows "fold (saveState_each c) rs p =
     p\<lparr> heap := (\<lambda>r. if r \<in> set rs then fst (save_one c (r = c) (networksSnapshot p) (heap p r)) else heap p r),
        sent := sent p @ concat (map (\<lambda>r. snd (save_one c (r = c) (networksSnapshot p) (heap p r))) rs) \<rparr>"
  using assms
proof (induction rs arbitrary: p)
  case Nil
  then show ?case by simp
next
  case (Cons x xs)
  let ?n = "fst (save_one c (x = c) (networksSnapshot p) (heap p x))"
  let ?cs = "snd (save_one c (x = c) (networksSnapshot p) (heap p x))"
  let ?q = "p\<lparr> heap := (heap p)(x := ?n), sent := sent p @ ?cs \<rparr>"
  have step: "saveState_each c x p = ?q"
    by (rule saveState_each_eq[OF Cons.prems(1,2)])
  have q1: "controllerNetwork ?q = Some c" using Cons.prems(1) by simp
  have q2: "net_state (heap ?q c) = Connected"
    using Cons.prems(2) by (auto simp: save_one_state)
  have d: "distinct xs" "x \<notin> set xs" using Cons.prems(3) by auto
  have same: "\<And>r. r \<in> set xs \<Longrightarrow> heap ?q r = heap p r" using d(2) by auto
  have heap_eq: "(\<lambda>r. if r \<in> set xs then fst (save_one c (r = c) (networksSnapshot ?q) (heap ?q r)) else heap ?q r)
      = (\<lambda>r. if r \<in> set (x # xs) then fst (save_one c (r = c) (networksSnapshot p) (heap p r)) else heap p r)"
    using d(2) by (auto simp: fun_eq_iff)
  have map_eq: "map (\<lambda>r. snd (save_one c (r = c) (networksSnapshot ?q) (heap ?q r))) xs
      = map (\<lambda>r. snd (save_one c (r = c) (networksSnapshot p) (heap p r))) xs"
    using d(2) by (intro map_cong) auto
  have "fold (saveState_each c) (x # xs) p = fold (saveState_each c) xs ?q"
    by (simp add: step)
  also have "\<dots> = ?q\<lparr> heap := (\<lambda>r. if r \<in> set xs then fst (save_one c (r = c) (networksSnapshot ?q) (heap ?q r)) else heap ?q r),
        sent := sent ?q @ concat (map (\<lambda>r. snd (save_one c (r = c) (networksSnapshot ?q) (heap ?q r))) xs) \<rparr>"
    by (rule Cons.IH[OF q1 q2 d(1)])
  also have "\<dots> = p\<lparr> heap := (\<lambda>r. if r \<in> set (x # xs) then fst (save_one c (r = c) (networksSnapshot p) (heap p r)) else heap p r),
        sent := sent p @ concat (map (\<lambda>r. snd (save_one c (r = c) (networksSnapshot p) (heap p r))) (x # xs)) \<rparr>"
    unfolding heap_eq map_eq by simp
  finally show ?case .
qed

lemma commands_for_eq:
  assumes "controllerNetwork p = Some c" "net_state (heap p c) = Connected"
  shows "commands_for c p r = snd (save_one c (r = c) (networksSnapshot p) (heap p r))"
  by (simp add: commands_for_def saveState_each_eq[OF assms])

lemma commands_for_cache:
  assumes "fst (getController p) = Some c"
  shows "commands_for c p r = snd (save_one c (r = c) (networksSnapshot p) (heap p r))"
  using getController_Some[OF assms]
  by (simp add: commands_for_def saveState_each_def save_one_def Let_def)

lemma saveState_eq:
  assumes "fst (getController p) = Some c" "distinct (networks p)"
  shows "saveState p = snapshotCurrentNetworks (p\<lparr> controllerNetwork := Some c,
      heap := (\<lambda>r. if r \<in> set (networks p) then fst (save_one c (r = c) (networksSnapshot p) (heap p r)) else heap p r),
      sent := sent p @ concat (map (commands_for c p) (networks p)) \<rparr>)"
proof -
  let ?p = "p\<lparr> controllerNetwork := Some c \<rparr>"
  have g: "getController p = (Some c, ?p)" by (rule getController_Some(1)[OF assms(1)])
  have c: "net_state (heap ?p c) = Connected" using getController_Some(2)[OF assms(1)] by simp
  have "fold (saveState_each c) (networks ?p) ?p =
     ?p\<lparr> heap := (\<lambda>r. if r \<in> set (networks ?p) then fst (save_one c (r = c) (networksSnapshot ?p) (heap ?p r)) else heap ?p r),
        sent := sent ?p @ concat (map (\<lambda>r. snd (save_one c (r = c) (networksSnapshot ?p) (heap ?p r))) (networks ?p)) \<rparr>"
    by (rule fold_saveState_each) (use c assms(2) in simp_all)
  moreover have "commands_for c p = (\<lambda>r. snd (save_one c (r = c) (networksSnapshot p) (heap p r)))"
    by (rule ext) (rule commands_for_cache[OF assms(1)])
  ultimately show ?thesis
    by (simp add: saveState_def g cong: if_cong)
qed


text \<open>Every entry \<^verbatim>\<open>snapshotCurrentNetworks\<close> writes carries its key as its name, and the key is
  not empty: a network has an entry exactly under a relay name it had when the snapshot was
  taken.\<close>

lemma fold_snapshot_each_named:
  assumes "\<And>k s. m k = Some s \<Longrightarrow> snap_name s = Str k \<and> k \<noteq> []"
    and "fold (snapshot_each h) rs m k = Some s"
  shows "snap_name s = Str k \<and> k \<noteq> []"
  using assms
proof (induction rs arbitrary: m)
  case Nil
  then show ?case by simp
next
  case (Cons x xs)
  have "\<And>k s. snapshot_each h x m k = Some s \<Longrightarrow> snap_name s = Str k \<and> k \<noteq> []"
    using Cons.prems(1)
    by (auto simp: snapshot_each_def snapshot_of_def Let_def split: if_splits)
  from Cons.IH[OF this] Cons.prems(2) show ?case by simp
qed

lemma snapshot_entry_named:
  assumes "networksSnapshot (snapshotCurrentNetworks q) k = Some s"
  shows "snap_name s = Str k \<and> k \<noteq> []"
  using fold_snapshot_each_named[where m = Map.empty and h = "heap q" and rs = "networks q" and k = k and s = s] assms
  by (simp add: snapshotCurrentNetworks_def)

lemma saveState_sent:
  assumes "fst (getController p) = Some c" "distinct (networks p)"
  shows "sent (saveState p) = sent p @ concat (map (commands_for c p) (networks p))"
  by (simp add: saveState_eq[OF assms] snapshotCurrentNetworks_def)

lemma saveState_heap:
  assumes "fst (getController p) = Some c" "distinct (networks p)" "r \<in> set (networks p)"
  shows "heap (saveState p) r = fst (save_one c (r = c) (networksSnapshot p) (heap p r))"
  using assms(3) by (simp add: saveState_eq[OF assms(1,2)] snapshotCurrentNetworks_def)

text \<open>
  C2, as the code has it. Let \<^verbatim>\<open>saveState\<close> run with a controller \<open>c\<close>, on networks listed
  once each, the snapshot store being what \<^verbatim>\<open>snapshotCurrentNetworks\<close> last wrote. For a
  network \<open>r\<close> that has an entry \<open>s\<close> under its relay name and is not the controller's own bare
  connection (which line 229 passes over), the loop issues exactly one command for \<open>r\<close>:
  \<^verbatim>\<open>saveNetwork\<close> under that relay name, whose change set holds host, port, tls, password, nick
  and user exactly where the current value differs from the entry's, with the current value, and
  leaves the others out. The commands of the whole call are those of its networks, in stored
  order, and \<open>r\<close> itself is not modified.
\<close>

theorem saveState_sends_changed_fields:
  assumes ctl: "fst (getController p) = Some c"
    and dist: "distinct (networks p)"
    and store: "networksSnapshot p = networksSnapshot (snapshotCurrentNetworks q)"
    and mem: "r \<in> set (networks p)"
    and served: "r \<noteq> c \<or> bnc_hasNetwork (ircClient (heap p r))"
    and entry: "networksSnapshot p (bncname (connection (heap p r))) = Some s"
  shows "sent (saveState p) = sent p @ concat (map (commands_for c p) (networks p)) \<and>
     commands_for c p r =
       [(c, SaveNetwork (bncname (connection (heap p r)))
          \<lparr> tag_host = (if server (connection (heap p r)) \<noteq> snap_host s
                          then Some (server (connection (heap p r))) else None),
            tag_port = (if port (connection (heap p r)) \<noteq> snap_port s
                          then Some (port (connection (heap p r))) else None),
            tag_tls = (if tls (connection (heap p r)) \<noteq> snap_tls s
                          then Some (tls (connection (heap p r))) else None),
            tag_password = (if password (heap p r) \<noteq> snap_password s
                          then Some (password (heap p r)) else None),
            tag_nick = (if nick (connection (heap p r)) \<noteq> snap_nick s
                          then Some (nick (connection (heap p r))) else None),
            tag_user = (if username (heap p r) \<noteq> snap_username s
                          then Some (username (heap p r)) else None) \<rparr>)] \<and>
     heap (saveState p) r = heap p r"
proof -
  have named: "truthy (snap_name s)"
    using snapshot_entry_named[of q "bncname (connection (heap p r))" s] entry store by simp
  have one: "save_one c (r = c) (networksSnapshot p) (heap p r) =
      (heap p r, [(c, SaveNetwork (bncname (connection (heap p r))) (diff_tags (heap p r) s))])"
    using served named entry by (auto simp: save_one_def Let_def)
  have cmds: "commands_for c p r =
      [(c, SaveNetwork (bncname (connection (heap p r))) (diff_tags (heap p r) s))]"
    by (simp add: commands_for_cache[OF ctl] one)
  have "heap (saveState p) r = heap p r"
    by (simp add: saveState_heap[OF ctl dist mem] one)
  with cmds saveState_sent[OF ctl dist] show ?thesis
    by (simp add: diff_tags_def changed_def)
qed

text \<open>Unfolding the example session.\<close>

lemmas ex_defs = edited_provider_def saved_provider_def new_provider_def control_net_def
  freenode_net_def draft_net_def blank_network_def snapshotCurrentNetworks_def snapshot_each_def
  snapshot_of_def Let_def initial_bnc_def

lemma edited_ctl: "fst (getController edited_provider) = Some 0"
  by (simp add: getController_def scanController_def usable_def ex_defs)

text \<open>
  Witness for C2: in the example session \<open>freenode\<close> has host and port as in its snapshot and the
  nick changed from \<open>alice\<close> to \<open>bob\<close>; only the nick is sent.
\<close>

theorem saveState_sends_changed_fields_witness:
  "fst (getController edited_provider) = Some 0 \<and>
   distinct (networks edited_provider) \<and>
   networksSnapshot edited_provider = networksSnapshot (snapshotCurrentNetworks saved_provider) \<and>
   1 \<in> set (networks edited_provider) \<and>
   (1::nat) \<noteq> 0 \<and>
   networksSnapshot edited_provider (bncname (connection (heap edited_provider 1))) =
     Some (snapshot_of (freenode_net ''alice'')) \<and>
   commands_for 0 edited_provider 1 =
     [(0, SaveNetwork ''freenode''
        \<lparr> tag_host = None, tag_port = None, tag_tls = None, tag_password = None,
          tag_nick = Some (Str ''bob''), tag_user = None \<rparr>)]"
proof -
  have dist: "distinct (networks edited_provider)" by (simp add: ex_defs)
  have store: "networksSnapshot edited_provider =
      networksSnapshot (snapshotCurrentNetworks saved_provider)"
    by (simp add: ex_defs)
  have mem: "1 \<in> set (networks edited_provider)" by (simp add: ex_defs)
  have served: "(1::nat) \<noteq> 0 \<or> bnc_hasNetwork (ircClient (heap edited_provider 1))" by simp
  have entry: "networksSnapshot edited_provider (bncname (connection (heap edited_provider 1))) =
      Some (snapshot_of (freenode_net ''alice''))"
    by (simp add: ex_defs)
  have vals: "heap edited_provider 1 = freenode_net ''bob''" by (simp add: ex_defs)
  from saveState_sends_changed_fields[OF edited_ctl dist store mem served entry]
  have "commands_for 0 edited_provider 1 =
     [(0, SaveNetwork ''freenode''
        \<lparr> tag_host = None, tag_port = None, tag_tls = None, tag_password = None,
          tag_nick = Some (Str ''bob''), tag_user = None \<rparr>)]"
    by (simp add: vals vals[unfolded One_nat_def] freenode_net_def blank_network_def snapshot_of_def)
  with edited_ctl dist store mem entry show ?thesis by simp
qed


text \<open>Unfolding the session of the bare control connection.\<close>

lemmas bare_defs = bare_edited_provider_def bare_saved_provider_def bare_net_def control_net_def
  new_provider_def blank_network_def snapshotCurrentNetworks_def snapshot_each_def
  snapshot_of_def Let_def

text \<open>
  Counterexample to C2 as stated: the controller's own connection has a snapshot entry under its
  relay name and its nick differs from the entry's, but its client reports no upstream network.
  The loop passes it over: no update command is issued for it, and \<^verbatim>\<open>saveState\<close> sends
  nothing.
\<close>

theorem saveState_skips_bare_controller:
  "fst (getController bare_edited_provider) = Some 0 \<and>
   networks bare_edited_provider = [0] \<and>
   networksSnapshot bare_edited_provider =
     networksSnapshot (snapshotCurrentNetworks bare_saved_provider) \<and>
   \<not> bnc_hasNetwork (ircClient (heap bare_edited_provider 0)) \<and>
   networksSnapshot bare_edited_provider (bncname (connection (heap bare_edited_provider 0))) =
     Some (snapshot_of (bare_net ''alice'')) \<and>
   snap_nick (snapshot_of (bare_net ''alice'')) = Str ''alice'' \<and>
   nick (connection (heap bare_edited_provider 0)) = Str ''bob'' \<and>
   commands_for 0 bare_edited_provider 0 = [] \<and>
   sent (saveState bare_edited_provider) = []"
proof -
  have ctl: "fst (getController bare_edited_provider) = Some 0"
    by (simp add: getController_def scanController_def usable_def bare_defs)
  have nets: "networks bare_edited_provider = [0]" by (simp add: bare_defs)
  have store: "networksSnapshot bare_edited_provider =
      networksSnapshot (snapshotCurrentNetworks bare_saved_provider)"
    by (simp add: bare_defs)
  have bare: "\<not> bnc_hasNetwork (ircClient (heap bare_edited_provider 0))"
    by (simp add: bare_defs)
  have entry: "networksSnapshot bare_edited_provider
      (bncname (connection (heap bare_edited_provider 0))) = Some (snapshot_of (bare_net ''alice''))"
    by (simp add: bare_defs)
  have vals: "snap_nick (snapshot_of (bare_net ''alice'')) = Str ''alice''"
    "nick (connection (heap bare_edited_provider 0)) = Str ''bob''"
    by (simp_all add: bare_defs)
  have none: "commands_for 0 bare_edited_provider 0 = []"
    using bare by (simp add: commands_for_cache[OF ctl] save_one_def)
  have before: "sent bare_edited_provider = []" by (simp add: bare_defs)
  have "distinct (networks bare_edited_provider)" by (simp add: nets)
  from saveState_sent[OF ctl this] none before nets
  have "sent (saveState bare_edited_provider) = []" by simp
  with ctl nets store bare entry vals none show ?thesis by simp
qed

text \<open>
  C3, as the code has it. Let \<^verbatim>\<open>saveState\<close> run with a controller \<open>c\<close> on networks listed
  once each, and let \<open>r\<close> be a network, not the bare control connection, with no snapshot entry
  under its relay name. The create path is taken if and only if host, port and nick are in the
  diff set with truthy values (a non-empty string, a non-zero number), that is, if and only if
  the network's server, port and nick are all truthy. Then exactly one \<^verbatim>\<open>addNetwork\<close> command
  is issued for \<open>r\<close>, with the network's name and its current host, port, tls, nick, user and
  password, and \<^verbatim>\<open>network.connection.bncname\<close> becomes \<^verbatim>\<open>network.name\<close>. Otherwise no
  command is issued for \<open>r\<close> and \<open>r\<close> is not modified: in particular a network without a nick is
  never created, whatever its host and port.
\<close>

theorem saveState_creates_when_entered:
  assumes ctl: "fst (getController p) = Some c"
    and dist: "distinct (networks p)"
    and mem: "r \<in> set (networks p)"
    and served: "r \<noteq> c \<or> bnc_hasNetwork (ircClient (heap p r))"
    and fresh: "networksSnapshot p (bncname (connection (heap p r))) = None"
  shows "sent (saveState p) = sent p @ concat (map (commands_for c p) (networks p)) \<and>
     (if truthy (server (connection (heap p r))) \<and> truthy (port (connection (heap p r))) \<and>
         truthy (nick (connection (heap p r)))
      then commands_for c p r =
             [(c, AddNetwork (name (heap p r)) (server (connection (heap p r)))
                (port (connection (heap p r))) (tls (connection (heap p r)))
                (nick (connection (heap p r))) (username (heap p r)) (password (heap p r)))] \<and>
           heap (saveState p) r =
             (heap p r)\<lparr> connection := (connection (heap p r))\<lparr> bncname := name (heap p r) \<rparr> \<rparr>
      else commands_for c p r = [] \<and> heap (saveState p) r = heap p r) \<and>
     ((truthy (server (connection (heap p r))) \<and> truthy (port (connection (heap p r))) \<and>
       truthy (nick (connection (heap p r)))) =
      (\<exists>h q n. tag_host (diff_tags (heap p r) empty_snapshot) = Some h \<and> truthy h \<and>
         tag_port (diff_tags (heap p r) empty_snapshot) = Some q \<and> truthy q \<and>
         tag_nick (diff_tags (heap p r) empty_snapshot) = Some n \<and> truthy n))"
proof -
  let ?n = "heap p r"
  let ?go = "truthy (server (connection ?n)) \<and> truthy (port (connection ?n)) \<and>
      truthy (nick (connection ?n))"
  have get: "\<And>v. js_get (changed v Undefined) = v"
    by (simp add: changed_def)
  have one: "save_one c (r = c) (networksSnapshot p) ?n =
      (if ?go
       then (?n\<lparr> connection := (connection ?n)\<lparr> bncname := name ?n \<rparr> \<rparr>,
             [(c, AddNetwork (name ?n) (server (connection ?n)) (port (connection ?n))
                (tls (connection ?n)) (nick (connection ?n)) (username ?n) (password ?n))])
       else (?n, []))"
    using served fresh
    by (auto simp: save_one_def Let_def empty_snapshot_def diff_tags_def get)
  have cmds: "commands_for c p r = snd (save_one c (r = c) (networksSnapshot p) ?n)"
    by (rule commands_for_cache[OF ctl])
  have hp: "heap (saveState p) r = fst (save_one c (r = c) (networksSnapshot p) ?n)"
    by (rule saveState_heap[OF ctl dist mem])
  have tr: "\<And>v. (\<exists>h. changed v Undefined = Some h \<and> truthy h) = truthy v"
    by (auto simp: changed_def)
  have gate: "?go =
      (\<exists>h q n. tag_host (diff_tags ?n empty_snapshot) = Some h \<and> truthy h \<and>
         tag_port (diff_tags ?n empty_snapshot) = Some q \<and> truthy q \<and>
         tag_nick (diff_tags ?n empty_snapshot) = Some n \<and> truthy n)"
    by (auto simp: diff_tags_def empty_snapshot_def changed_def)
  have body: "if ?go
      then commands_for c p r =
             [(c, AddNetwork (name ?n) (server (connection ?n)) (port (connection ?n))
                (tls (connection ?n)) (nick (connection ?n)) (username ?n) (password ?n))] \<and>
           heap (saveState p) r = ?n\<lparr> connection := (connection ?n)\<lparr> bncname := name ?n \<rparr> \<rparr>
      else commands_for c p r = [] \<and> heap (saveState p) r = ?n"
    unfolding cmds hp one by simp
  from saveState_sent[OF ctl dist] body gate show ?thesis
    by (intro conjI)
qed

text \<open>
  Witness for C3: network 2 of the example session has host, port and nick entered and is
  created under its name; network 3 has no nick and is passed over.
\<close>

theorem saveState_creates_when_entered_witness:
  "fst (getController edited_provider) = Some 0 \<and>
   distinct (networks edited_provider) \<and>
   2 \<in> set (networks edited_provider) \<and> (2::nat) \<noteq> 0 \<and>
   3 \<in> set (networks edited_provider) \<and> (3::nat) \<noteq> 0 \<and>
   networksSnapshot edited_provider (bncname (connection (heap edited_provider 2))) = None \<and>
   networksSnapshot edited_provider (bncname (connection (heap edited_provider 3))) = None \<and>
   commands_for 0 edited_provider 2 =
     [(0, AddNetwork ''Network2'' (Str ''irc.libera.chat'') (Num 6697) (JBool False)
        (Str ''carol'') (Str []) (Str []))] \<and>
   bncname (connection (heap (saveState edited_provider) 2)) = ''Network2'' \<and>
   commands_for 0 edited_provider 3 = [] \<and>
   heap (saveState edited_provider) 3 = heap edited_provider 3"
proof -
  have dist: "distinct (networks edited_provider)" by (simp add: ex_defs)
  have mem2: "2 \<in> set (networks edited_provider)" by (simp add: ex_defs)
  have mem3: "3 \<in> set (networks edited_provider)" by (simp add: ex_defs)
  have s2: "(2::nat) \<noteq> 0 \<or> bnc_hasNetwork (ircClient (heap edited_provider 2))" by simp
  have s3: "(3::nat) \<noteq> 0 \<or> bnc_hasNetwork (ircClient (heap edited_provider 3))" by simp
  have v2: "heap edited_provider 2 = draft_net ''Network2'' ''irc.libera.chat'' ''carol''"
    by (simp add: ex_defs)
  have v3: "heap edited_provider 3 = draft_net ''Network3'' ''irc.oftc.net'' []"
    by (simp add: ex_defs)
  have f2: "networksSnapshot edited_provider (bncname (connection (heap edited_provider 2))) = None"
    by (simp add: ex_defs)
  have f3: "networksSnapshot edited_provider (bncname (connection (heap edited_provider 3))) = None"
    by (simp add: ex_defs)
  from saveState_creates_when_entered[OF edited_ctl dist mem2 s2 f2]
  have r2: "commands_for 0 edited_provider 2 =
     [(0, AddNetwork ''Network2'' (Str ''irc.libera.chat'') (Num 6697) (JBool False)
        (Str ''carol'') (Str []) (Str []))] \<and>
     bncname (connection (heap (saveState edited_provider) 2)) = ''Network2''"
    by (simp add: v2 draft_net_def blank_network_def)
  from saveState_creates_when_entered[OF edited_ctl dist mem3 s3 f3]
  have r3: "commands_for 0 edited_provider 3 = [] \<and>
     heap (saveState edited_provider) 3 = heap edited_provider 3"
    by (simp add: v3 draft_net_def blank_network_def)
  from edited_ctl dist mem2 mem3 f2 f3 r2 r3 show ?thesis by simp
qed

text \<open>
  Counterexample to C3 as stated: network 4 of the example session has no snapshot, and its diff
  set includes host (the empty string differs from \<^verbatim>\<open>undefined\<close>), port and nick. The create
  path is not taken: no command is issued for it and it gets no relay name.
\<close>

theorem saveState_empty_host_not_created:
  "fst (getController edited_provider) = Some 0 \<and>
   networksSnapshot edited_provider (bncname (connection (heap edited_provider 4))) = None \<and>
   tag_host (diff_tags (heap edited_provider 4) empty_snapshot) = Some (Str []) \<and>
   tag_port (diff_tags (heap edited_provider 4) empty_snapshot) = Some (Num 6697) \<and>
   tag_nick (diff_tags (heap edited_provider 4) empty_snapshot) = Some (Str ''dave'') \<and>
   commands_for 0 edited_provider 4 = [] \<and>
   bncname (connection (heap (saveState_each 0 4 edited_provider) 4)) = []"
proof -
  have v4: "heap edited_provider 4 = draft_net ''Network4'' [] ''dave''"
    by (simp add: ex_defs)
  have f4: "networksSnapshot edited_provider (bncname (connection (heap edited_provider 4))) = None"
    by (simp add: ex_defs)
  have g: "getController edited_provider = (Some 0, edited_provider\<lparr> controllerNetwork := Some 0 \<rparr>)"
    by (rule getController_Some(1)[OF edited_ctl])
  have each: "saveState_each 0 4 edited_provider = edited_provider\<lparr> controllerNetwork := Some 0 \<rparr>"
    using f4 by (simp add: saveState_each_def g v4 Let_def diff_tags_def changed_def
        empty_snapshot_def draft_net_def blank_network_def)
  have tags: "diff_tags (draft_net ''Network4'' [] ''dave'') empty_snapshot =
      \<lparr> tag_host = Some (Str []), tag_port = Some (Num 6697), tag_tls = Some (JBool False),
        tag_password = Some (Str []), tag_nick = Some (Str ''dave''), tag_user = Some (Str []) \<rparr>"
    by (simp add: diff_tags_def changed_def empty_snapshot_def draft_net_def blank_network_def)
  have b4: "bncname (connection (draft_net ''Network4'' [] ''dave'')) = []"
    by (simp add: draft_net_def blank_network_def)
  show ?thesis
    using edited_ctl f4
    by (simp add: commands_for_def each tags v4 b4)
qed

text \<open>
  C6. When \<^verbatim>\<open>getController()\<close> returns null, \<^verbatim>\<open>saveState\<close> logs one line and returns: no
  command is issued, no network is modified, the list of networks and the snapshot store are as
  they were. (The cache of the controller is null afterwards, as \<^verbatim>\<open>getController\<close> leaves it.)
\<close>

theorem saveState_without_controller:
  assumes "fst (getController p) = None"
  shows "saveState p = p\<lparr> controllerNetwork := None,
       logged := logged p @ [''No controller available to save networks''] \<rparr> \<and>
     sent (saveState p) = sent p \<and>
     heap (saveState p) = heap p \<and>
     networks (saveState p) = networks p \<and>
     networksSnapshot (saveState p) = networksSnapshot p"
  by (simp add: saveState_def getController_None[OF assms])

text \<open>
  Witness for C6: the example session with the control connection lost. The store still holds
  the entry of \<open>freenode\<close> taken before the edits.
\<close>

theorem saveState_without_controller_witness:
  "fst (getController offline_provider) = None \<and>
   sent (saveState offline_provider) = [] \<and>
   heap (saveState offline_provider) = heap offline_provider \<and>
   networks (saveState offline_provider) = [0, 1, 2, 3, 4] \<and>
   networksSnapshot (saveState offline_provider) = networksSnapshot saved_provider \<and>
   networksSnapshot saved_provider ''freenode'' = Some (snapshot_of (freenode_net ''alice'')) \<and>
   logged (saveState offline_provider) = [''No controller available to save networks'']"
proof -
  have none: "fst (getController offline_provider) = None"
    by (simp add: getController_def scanController_def usable_def offline_provider_def
        set_net_state_def ex_defs)
  have base: "sent offline_provider = [] \<and> networks offline_provider = [0, 1, 2, 3, 4] \<and>
      networksSnapshot offline_provider = networksSnapshot saved_provider \<and>
      logged offline_provider = []"
    by (simp add: offline_provider_def set_net_state_def edited_provider_def saved_provider_def
        snapshotCurrentNetworks_def new_provider_def)
  have entry: "networksSnapshot saved_provider ''freenode'' = Some (snapshot_of (freenode_net ''alice''))"
    by (simp add: ex_defs)
  from saveState_without_controller[OF none] none base entry show ?thesis by simp
qed

subsection \<open>Connection rewriter\<close>

text \<open>
  C7. On \<^verbatim>\<open>network.connecting\<close> for the network \<open>r\<close>, with the relay enabled and
  \<^verbatim>\<open>rewriteConnections\<close> set, the handler overwrites the client's host, port and tls with the
  relay's server, port and tls, the connection's \<^verbatim>\<open>direct\<close> and the client's \<^verbatim>\<open>path\<close> with the
  relay's, and the client's password with \<open>username/bncname:password\<close> if the relay password is
  truthy; with no relay password the client's password stays as it was.
\<close>

theorem on_connecting_rewrite_overwrites:
  assumes "bnc_enabled (bnc p)" and "rewriteConnections p"
  shows "opt_host (ircClient (heap (on_connecting_rewrite r p) r)) = bnc_server (bnc p) \<and>
     opt_port (ircClient (heap (on_connecting_rewrite r p) r)) = bnc_port (bnc p) \<and>
     opt_tls (ircClient (heap (on_connecting_rewrite r p) r)) = bnc_tls (bnc p) \<and>
     direct (connection (heap (on_connecting_rewrite r p) r)) = bnc_direct (bnc p) \<and>
     opt_path (ircClient (heap (on_connecting_rewrite r p) r)) = bnc_path (bnc p) \<and>
     opt_password (ircClient (heap (on_connecting_rewrite r p) r)) =
       (if truthy (bnc_password (bnc p))
        then Str (js_to_string (bnc_username (bnc p)) @ ''/'' @ bncname (connection (heap p r)) @
                  '':'' @ js_to_string (bnc_password (bnc p)))
        else opt_password (ircClient (heap p r)))"
  using assms by (simp add: on_connecting_rewrite_def tunnel_password_def Let_def)

text \<open>Witness for C7: \<open>freenode\<close> is sent to the relay with the password
  \<open>alice/freenode:s3cret\<close>.\<close>

theorem on_connecting_rewrite_overwrites_witness:
  "bnc_enabled (bnc relay_provider) \<and> rewriteConnections relay_provider \<and>
   truthy (bnc_password (bnc relay_provider)) \<and>
   opt_host (ircClient (heap (on_connecting_rewrite 1 relay_provider) 1)) = Str ''bnc.example.net'' \<and>
   opt_port (ircClient (heap (on_connecting_rewrite 1 relay_provider) 1)) = Num 6697 \<and>
   opt_tls (ircClient (heap (on_connecting_rewrite 1 relay_provider) 1)) = JBool True \<and>
   direct (connection (heap (on_connecting_rewrite 1 relay_provider) 1)) = JBool False \<and>
   opt_path (ircClient (heap (on_connecting_rewrite 1 relay_provider) 1)) = Str ''/irc'' \<and>
   opt_password (ircClient (heap (on_connecting_rewrite 1 relay_provider) 1)) =
     Str ''alice/freenode:s3cret''"
proof -
  have en: "bnc_enabled (bnc relay_provider)" "rewriteConnections relay_provider"
    by (simp_all add: relay_provider_def relay_bnc_def new_provider_def initial_bnc_def)
  have vals: "bnc relay_provider = relay_bnc"
    "bncname (connection (heap relay_provider 1)) = ''freenode''"
    by (simp_all add: relay_provider_def new_provider_def freenode_net_def blank_network_def)
  from on_connecting_rewrite_overwrites[OF en, of 1] en show ?thesis
    by (simp add: vals vals[unfolded One_nat_def] relay_bnc_def initial_bnc_def)
qed

subsection \<open>Naming allocator\<close>

text \<open>The loop from the counter \<open>s\<close> stops at the first number whose lookup finds nothing or the
  network itself.\<close>

lemma name_loop_spec:
  "\<exists>k\<ge>s. name_loop r s p =
        p\<lparr> heap := (heap p)(r := (heap p r)\<lparr> name := ''Network'' @ string_of_nat k \<rparr>) \<rparr> \<and>
      (find_existing p (''Network'' @ string_of_nat k) = None \<or>
       find_existing p (''Network'' @ string_of_nat k) = Some r) \<and>
      (\<forall>j. s \<le> j \<and> j < k \<longrightarrow>
         (\<exists>x. find_existing p (''Network'' @ string_of_nat j) = Some x \<and> x \<noteq> r))"
proof (induction r s p rule: name_loop.induct)
  case (1 network currentNum p)
  let ?e = "find_existing p (''Network'' @ string_of_nat currentNum)"
  show ?case
  proof (cases "?e = None \<or> ?e = Some network")
    case True
    then have "name_loop network currentNum p =
        p\<lparr> heap := (heap p)(network := (heap p network)\<lparr> name := ''Network'' @ string_of_nat currentNum \<rparr>) \<rparr>"
      by (simp add: name_loop.simps[of network currentNum p] Let_def del: append.simps)
    with True show ?thesis
      by (intro exI[where x = currentNum]) (simp add: fun_upd_def del: append.simps)
  next
    case False
    then obtain x where x: "?e = Some x" "x \<noteq> network" by (cases ?e) auto
    from x have eq: "name_loop network currentNum p = name_loop network (Suc currentNum) p"
      by (simp add: name_loop.simps[of network currentNum p] Let_def del: append.simps)
    from "1.IH"[OF refl False] obtain k where k: "Suc currentNum \<le> k"
      "name_loop network (Suc currentNum) p =
        p\<lparr> heap := (heap p)(network := (heap p network)\<lparr> name := ''Network'' @ string_of_nat k \<rparr>) \<rparr>"
      "find_existing p (''Network'' @ string_of_nat k) = None \<or>
       find_existing p (''Network'' @ string_of_nat k) = Some network"
      "\<forall>j. Suc currentNum \<le> j \<and> j < k \<longrightarrow>
         (\<exists>x. find_existing p (''Network'' @ string_of_nat j) = Some x \<and> x \<noteq> network)"
      by blast
    have "\<forall>j. currentNum \<le> j \<and> j < k \<longrightarrow>
         (\<exists>x. find_existing p (''Network'' @ string_of_nat j) = Some x \<and> x \<noteq> network)"
    proof (intro allI impI)
      fix j assume j: "currentNum \<le> j \<and> j < k"
      show "\<exists>x. find_existing p (''Network'' @ string_of_nat j) = Some x \<and> x \<noteq> network"
      proof (cases "j = currentNum")
        case True
        with x show ?thesis by blast
      next
        case False
        with j have "Suc currentNum \<le> j \<and> j < k" by simp
        with k(4) show ?thesis by blast
      qed
    qed
    with k(1,2,3) eq show ?thesis
      by (intro exI[where x = k]) (simp add: fun_upd_def del: append.simps)
  qed
qed

text \<open>
  What the allocator does in general. A new network \<open>r\<close> without a relay name is named
  \<open>Network<k>\<close> for the smallest positive \<open>k\<close> at which the lookup (the first network with that
  display name, else the first with that relay name) finds nothing or finds \<open>r\<close> itself: at
  every smaller positive number the lookup finds another network, which holds that number as
  display name or relay name. Nothing else changes. Unless \<open>r\<close> itself already had the name
  \<open>Network<k>\<close>, no network has that display name or that relay name.
\<close>

lemma on_network_new_allocates:
  assumes "bncname (connection (heap p r)) = []"
  shows "\<exists>k\<ge>1.
      on_network_new r p =
        p\<lparr> heap := (heap p)(r := (heap p r)\<lparr> name := ''Network'' @ string_of_nat k \<rparr>) \<rparr> \<and>
      (find_existing p (''Network'' @ string_of_nat k) = None \<or>
       find_existing p (''Network'' @ string_of_nat k) = Some r) \<and>
      (\<forall>j. 1 \<le> j \<and> j < k \<longrightarrow>
         (\<exists>x. find_existing p (''Network'' @ string_of_nat j) = Some x \<and> x \<noteq> r \<and>
            x \<in> set (networks p) \<and>
            (name (heap p x) = ''Network'' @ string_of_nat j \<or>
             bncname (connection (heap p x)) = ''Network'' @ string_of_nat j))) \<and>
      (name (heap p r) \<noteq> ''Network'' @ string_of_nat k \<longrightarrow>
         (\<forall>x \<in> set (networks p).
            name (heap p x) \<noteq> ''Network'' @ string_of_nat k \<and>
            bncname (connection (heap p x)) \<noteq> ''Network'' @ string_of_nat k))"
proof -
  from name_loop_spec[of 1 r p] obtain k where k: "1 \<le> k"
    "name_loop r 1 p =
        p\<lparr> heap := (heap p)(r := (heap p r)\<lparr> name := ''Network'' @ string_of_nat k \<rparr>) \<rparr>"
    "find_existing p (''Network'' @ string_of_nat k) = None \<or>
     find_existing p (''Network'' @ string_of_nat k) = Some r"
    "\<forall>j. 1 \<le> j \<and> j < k \<longrightarrow>
         (\<exists>x. find_existing p (''Network'' @ string_of_nat j) = Some x \<and> x \<noteq> r)"
    by blast
  let ?N = "\<lambda>j. ''Network'' @ string_of_nat j"
  have taken: "\<forall>j. 1 \<le> j \<and> j < k \<longrightarrow>
      (\<exists>x. find_existing p (?N j) = Some x \<and> x \<noteq> r \<and> x \<in> set (networks p) \<and>
         (name (heap p x) = ?N j \<or> bncname (connection (heap p x)) = ?N j))"
  proof (intro allI impI)
    fix j assume "1 \<le> j \<and> j < k"
    with k(4) obtain x where x: "find_existing p (?N j) = Some x" "x \<noteq> r" by blast
    from find_existing_Some[OF x(1)] x
    show "\<exists>x. find_existing p (?N j) = Some x \<and> x \<noteq> r \<and> x \<in> set (networks p) \<and>
         (name (heap p x) = ?N j \<or> bncname (connection (heap p x)) = ?N j)"
      by blast
  qed
  have free: "name (heap p r) \<noteq> ?N k \<longrightarrow>
      (\<forall>x \<in> set (networks p). name (heap p x) \<noteq> ?N k \<and> bncname (connection (heap p x)) \<noteq> ?N k)"
  proof
    assume own: "name (heap p r) \<noteq> ?N k"
    have "find_existing p (?N k) \<noteq> Some r"
    proof
      assume "find_existing p (?N k) = Some r"
      from find_existing_Some[OF this] own assms show False by simp
    qed
    with k(3) have "find_existing p (?N k) = None" by blast
    then show "\<forall>x \<in> set (networks p). name (heap p x) \<noteq> ?N k \<and> bncname (connection (heap p x)) \<noteq> ?N k"
      using find_existing_None by blast
  qed
  have "on_network_new r p = name_loop r 1 p"
    using assms by (simp add: on_network_new_def)
  with k(1,2,3) taken free show ?thesis
    by (intro exI[where x = k]) (simp only: simp_thms)
qed

text \<open>With networks named \<open>Network1\<close> and \<open>Network3\<close>, a new network is named \<open>Network2\<close>.\<close>

lemma on_network_new_example:
  "bncname (connection (heap named_provider 2)) = [] \<and>
   name (heap (on_network_new 2 named_provider) 2) = ''Network2''"
  by (simp add: on_network_new_def named_provider_def new_provider_def blank_network_def
      name_loop.simps find_existing_def string_of_nat.simps digit_char_def Let_def)

text \<open>
  C9. The code at the failing input: network 0 is named \<open>libera\<close> and has the relay name
  \<open>Network1\<close>; the new network 1 arrives named \<open>Network1\<close> and has no relay name. No network
  has the display name or the relay name \<open>Network2\<close>, so 2 is the smallest number whose name
  is free of both, and \<open>Network1\<close> is not. The lookup by display name finds the new network
  itself, the lookup by relay name is then not made (line 350), line 354 accepts, and the network
  keeps \<open>Network1\<close>, the relay name of network 0.
\<close>

theorem on_network_new_keeps_clashing_name:
  "bncname (connection (heap clash_provider 1)) = [] \<and>
   networks clash_provider = [0, 1] \<and>
   bncname (connection (heap clash_provider 0)) = ''Network1'' \<and>
   find_existing clash_provider ''Network1'' = Some 1 \<and>
   find_existing clash_provider ''Network2'' = None \<and>
   name (heap (on_network_new 1 clash_provider) 1) = ''Network1''"
  by (simp add: on_network_new_def clash_provider_def new_provider_def blank_network_def
      name_loop.simps find_existing_def string_of_nat.simps digit_char_def Let_def)

subsection \<open>Buffer reconciliation\<close>

text \<open>The two loops in closed form: the first is a fold of \<open>upsert\<close>, the second keeps the
  buffers that are not stale.\<close>

lemma buffer_index_spec:
  "(case buffer_index n bs of
      Some i \<Rightarrow> i < length bs \<and> toLowerCase n \<in> buf_key ` set bs \<and>
        (\<forall>g. bs[i := g (bs ! i)] = map_first (\<lambda>b. buf_key b = toLowerCase n) g bs)
    | None \<Rightarrow> toLowerCase n \<notin> buf_key ` set bs)"
  by (induction bs) (auto simp: buf_key_def split: option.splits)

lemma set_fields_act: "set_fields e rb b = act (asg_of e rb) b"
  by (simp add: set_fields_def act_def asg_of_def Let_def)

lemma sync_buffer_upsert: "fst (sync_buffer e c rb (bs, raws)) = upsert e rb bs"
  using buffer_index_spec[of "rb_name rb" bs]
  by (auto simp: sync_buffer_def addBuffer_def upsert_def remote_key_def Let_def split: option.splits)

lemma fold_sync_buffer: "fst (fold (sync_buffer e c) w (bs, raws)) = fold (upsert e) w bs"
proof (induction w arbitrary: bs raws)
  case Nil
  then show ?case by simp
next
  case (Cons a w)
  obtain bs1 raws1 where s: "sync_buffer e c a (bs, raws) = (bs1, raws1)"
    by (cases "sync_buffer e c a (bs, raws)")
  with sync_buffer_upsert[of e c a bs raws] have "bs1 = upsert e a bs" by simp
  with s Cons.IH[of bs1 raws1] show ?case by simp
qed

lemma remove_stale_eq:
  "remove_stale remote b bs = (if stale remote b then remove1 b bs else bs)"
  by (auto simp: remove_stale_def stale_def isChannel_def isQuery_def removeBuffer_def
      buf_key_def remote_key_def Let_def filter_empty_conv image_iff)

lemma fold_remove_stale_gen:
  assumes "\<forall>k \<in> set ks. \<not> stale remote k"
  shows "fold (remove_stale remote) xs (ks @ xs) = ks @ filter (\<lambda>b. \<not> stale remote b) xs"
  using assms
proof (induction xs arbitrary: ks)
  case Nil
  then show ?case by simp
next
  case (Cons x xs)
  show ?case
  proof (cases "stale remote x")
    case True
    with Cons.prems have "x \<notin> set ks" by auto
    then have "remove1 x (ks @ x # xs) = ks @ xs" by (simp add: remove1_append)
    with True Cons.IH[OF Cons.prems] show ?thesis by (simp add: remove_stale_eq)
  next
    case False
    with Cons.prems have "\<forall>k \<in> set (ks @ [x]). \<not> stale remote k" by auto
    from Cons.IH[OF this] False show ?thesis by (simp add: remove_stale_eq)
  qed
qed

lemma fold_remove_stale:
  "fold (remove_stale remote) bs bs = filter (\<lambda>b. \<not> stale remote b) bs"
  using fold_remove_stale_gen[of "[]" remote bs] by simp

lemma reconcile_eq:
  "fst (reconcile e c remote bs) = filter (\<lambda>b. \<not> stale remote b) (fold (upsert e) remote bs)"
proof -
  obtain bs1 raws where f: "fold (sync_buffer e c) remote (bs, []) = (bs1, raws)"
    by (cases "fold (sync_buffer e c) remote (bs, [])")
  with fold_sync_buffer[of e c remote bs "[]"] have "bs1 = fold (upsert e) remote bs" by simp
  with f show ?thesis by (simp add: reconcile_def fold_remove_stale)
qed


text \<open>Assignments: writing one after another is writing the combined one, and writing the
  same one twice is writing it once.\<close>

lemma act_after: "act (after x y) b = act x (act y b)"
  by (simp add: act_def after_def split: option.splits)

lemma after_assoc: "after (after x y) z = after x (after y z)"
  by (simp add: after_def split: option.splits)

lemma after_no_asg [simp]: "after x no_asg = x" "after no_asg x = x"
  by (simp_all add: after_def no_asg_def split: option.splits)

lemma after_idem [simp]: "after x x = x"
  by (simp add: after_def split: option.splits)

lemma act_no_asg [simp]: "act no_asg b = b"
  by (simp add: act_def no_asg_def)

lemma act_key [simp]: "buf_key (act a b) = buf_key b"
  by (simp add: act_def buf_key_def)

lemma act_name_kind [simp]: "name_kind (act a b) = name_kind b"
  by (simp add: act_def name_kind_def)

lemma stale_name_kind: "name_kind a = name_kind b \<Longrightarrow> stale remote a = stale remote b"
  by (simp add: stale_def name_kind_def buf_key_def)

lemma stale_act [simp]: "stale remote (act a b) = stale remote b"
  by (rule stale_name_kind) simp

text \<open>The first loop, run from buffers with assignments pending, leaves more assignments
  pending on the buffers extended by the new ones; run over names that are all present, it only
  adds to what is pending. Hence running it twice is running it once.\<close>

lemma apply_pending_keys [simp]: "map buf_key (apply_pending d bs) = map buf_key bs"
  by (induction bs arbitrary: d) simp_all

lemma apply_pending_key_set [simp]: "buf_key ` set (apply_pending d bs) = buf_key ` set bs"
  using apply_pending_keys[of d bs] by (metis set_map)

lemma apply_pending_none [simp]: "apply_pending (\<lambda>_. no_asg) bs = bs"
proof (induction bs)
  case Nil
  then show ?case by simp
next
  case (Cons b bs)
  have "(\<lambda>_. no_asg)(buf_key b := no_asg) = (\<lambda>_. no_asg)" by auto
  with Cons show ?case by simp
qed

lemma apply_pending_absent:
  "k \<notin> buf_key ` set bs \<Longrightarrow> apply_pending (d(k := y)) bs = apply_pending d bs"
proof (induction bs arbitrary: d)
  case Nil
  then show ?case by simp
next
  case (Cons b bs)
  then have ne: "buf_key b \<noteq> k" and k: "k \<notin> buf_key ` set bs" by auto
  have "apply_pending ((d(k := y))(buf_key b := no_asg)) bs =
      apply_pending ((d(buf_key b := no_asg))(k := y)) bs"
    using ne by (simp only: fun_upd_twist[of k "buf_key b"])
  also have "\<dots> = apply_pending (d(buf_key b := no_asg)) bs"
    by (rule Cons.IH[OF k])
  finally show "apply_pending (d(k := y)) (b # bs) = apply_pending d (b # bs)"
    using ne by simp
qed

lemma map_first_apply_pending:
  "map_first (\<lambda>b. buf_key b = k) (act x) (apply_pending d bs) =
     apply_pending (d(k := after x (d k))) bs"
proof (induction bs arbitrary: d)
  case Nil
  then show ?case by simp
next
  case (Cons b bs)
  show "map_first (\<lambda>b. buf_key b = k) (act x) (apply_pending d (b # bs)) =
     apply_pending (d(k := after x (d k))) (b # bs)"
  proof (cases "buf_key b = k")
    case True
    have "(d(k := after x (d k)))(k := no_asg) = d(k := no_asg)" by simp
    with True show ?thesis by (simp add: act_after)
  next
    case False
    have "(d(k := after x (d k)))(buf_key b := no_asg) =
        (d(buf_key b := no_asg))(k := after x ((d(buf_key b := no_asg)) k))"
      using False by (auto simp: fun_eq_iff)
    then have "apply_pending ((d(k := after x (d k)))(buf_key b := no_asg)) bs =
        map_first (\<lambda>b. buf_key b = k) (act x) (apply_pending (d(buf_key b := no_asg)) bs)"
      by (simp only: Cons.IH[of "d(buf_key b := no_asg)"])
    with False show ?thesis by simp
  qed
qed

lemma apply_pending_snoc:
  assumes "buf_key n \<notin> buf_key ` set bs"
  shows "apply_pending d (bs @ [n]) = apply_pending d bs @ [act (d (buf_key n)) n]"
  using assms
proof (induction bs arbitrary: d)
  case Nil
  then show ?case by simp
next
  case (Cons b bs)
  then have ne: "buf_key b \<noteq> buf_key n" and k: "buf_key n \<notin> buf_key ` set bs" by auto
  from Cons.IH[OF k, of "d(buf_key b := no_asg)"] ne
  show "apply_pending d ((b # bs) @ [n]) = apply_pending d (b # bs) @ [act (d (buf_key n)) n]"
    by (simp del: fun_upd_apply add: fun_upd_same fun_upd_other)
qed

lemma upsert_apply_pending_present:
  assumes "remote_key rb \<in> buf_key ` set bs"
  shows "upsert e rb (apply_pending d bs) =
     apply_pending (d(remote_key rb := after (asg_of e rb) (d (remote_key rb)))) bs"
proof -
  have "set_fields e rb = act (asg_of e rb)" by (rule ext) (rule set_fields_act)
  with assms show ?thesis
    by (simp add: upsert_def map_first_apply_pending)
qed

lemma upsert_apply_pending_absent:
  assumes "remote_key rb \<notin> buf_key ` set bs" and "d (remote_key rb) = no_asg"
  shows "upsert e rb (apply_pending d bs) =
     apply_pending (d(remote_key rb := after (asg_of e rb) (d (remote_key rb))))
       (bs @ [(new_buffer e (rb_name rb))\<lparr> buf_name := rb_name rb \<rparr>])"
proof -
  let ?n = "(new_buffer e (rb_name rb))\<lparr> buf_name := rb_name rb \<rparr>"
  have key: "buf_key ?n = remote_key rb" by (simp add: buf_key_def remote_key_def)
  with assms(1) have absent: "buf_key ?n \<notin> buf_key ` set bs" by simp
  have "upsert e rb (apply_pending d bs) = apply_pending d bs @ [act (asg_of e rb) ?n]"
    using assms(1) by (simp add: upsert_def set_fields_act)
  also have "\<dots> = apply_pending (d(remote_key rb := asg_of e rb)) bs @
      [act ((d(remote_key rb := asg_of e rb)) (buf_key ?n)) ?n]"
    using assms(1) by (simp add: apply_pending_absent key)
  also have "\<dots> = apply_pending (d(remote_key rb := asg_of e rb)) (bs @ [?n])"
    by (rule apply_pending_snoc[OF absent, symmetric])
  finally show ?thesis using assms(2) by simp
qed

lemma fold_upsert_present:
  assumes "\<forall>rb \<in> set w. remote_key rb \<in> buf_key ` set bs"
  shows "fold (upsert e) w (apply_pending d bs) = apply_pending (pend e w d) bs"
  using assms
proof (induction w arbitrary: d)
  case Nil
  then show ?case by (simp add: pend_def)
next
  case (Cons a w)
  from Cons.prems have a: "remote_key a \<in> buf_key ` set bs"
    and w: "\<forall>rb \<in> set w. remote_key rb \<in> buf_key ` set bs" by auto
  from Cons.IH[OF w] upsert_apply_pending_present[OF a] show ?case
    by (simp add: pend_def)
qed

lemma fold_upsert_any:
  assumes "\<forall>k. k \<notin> buf_key ` set bs \<longrightarrow> d k = no_asg"
  shows "\<exists>ys. fold (upsert e) w (apply_pending d bs) = apply_pending (pend e w d) (bs @ ys) \<and>
     (\<forall>rb \<in> set w. remote_key rb \<in> buf_key ` set (bs @ ys))"
  using assms
proof (induction w arbitrary: d bs)
  case Nil
  show ?case by (intro exI[where x = "[]"]) (simp add: pend_def)
next
  case (Cons a w)
  let ?d = "d(remote_key a := after (asg_of e a) (d (remote_key a)))"
  show ?case
  proof (cases "remote_key a \<in> buf_key ` set bs")
    case True
    have inv: "\<forall>k. k \<notin> buf_key ` set bs \<longrightarrow> ?d k = no_asg"
      using Cons.prems True by auto
    from Cons.IH[OF inv] obtain ys where
      ys: "fold (upsert e) w (apply_pending ?d bs) = apply_pending (pend e w ?d) (bs @ ys)"
        "\<forall>rb \<in> set w. remote_key rb \<in> buf_key ` set (bs @ ys)"
      by blast
    from True have "remote_key a \<in> buf_key ` set (bs @ ys)" by auto
    with ys upsert_apply_pending_present[where d = d and rb = a and bs = bs and e = e, OF True] show ?thesis
      by (intro exI[where x = ys]) (simp add: pend_def)
  next
    case False
    let ?n = "(new_buffer e (rb_name a))\<lparr> buf_name := rb_name a \<rparr>"
    have key: "buf_key ?n = remote_key a" by (simp add: buf_key_def remote_key_def)
    from Cons.prems False have none: "d (remote_key a) = no_asg" by simp
    have inv: "\<forall>k. k \<notin> buf_key ` set (bs @ [?n]) \<longrightarrow> ?d k = no_asg"
      using Cons.prems key by auto
    from Cons.IH[OF inv] obtain ys where
      ys: "fold (upsert e) w (apply_pending ?d (bs @ [?n])) =
          apply_pending (pend e w ?d) ((bs @ [?n]) @ ys)"
        "\<forall>rb \<in> set w. remote_key rb \<in> buf_key ` set ((bs @ [?n]) @ ys)"
      by blast
    have "remote_key a \<in> buf_key ` set (bs @ ?n # ys)" using key by (simp add: image_iff)
    with ys upsert_apply_pending_absent[where d = d and rb = a and bs = bs and e = e, OF False none] show ?thesis
      by (intro exI[where x = "?n # ys"]) (simp add: pend_def)
  qed
qed

lemma pend_split: "pend e w d k = after (pend e w (\<lambda>_. no_asg) k) (d k)"
proof (induction w arbitrary: d)
  case Nil
  then show ?case by (simp add: pend_def)
next
  case (Cons a w)
  let ?d = "d(remote_key a := after (asg_of e a) (d (remote_key a)))"
  let ?z = "(\<lambda>_. no_asg)(remote_key a := asg_of e a)"
  have "pend e (a # w) d k = pend e w ?d k" by (simp add: pend_def)
  also have "\<dots> = after (pend e w (\<lambda>_. no_asg) k) (?d k)" by (rule Cons.IH)
  also have "?d k = after (?z k) (d k)" by simp
  also have "after (pend e w (\<lambda>_. no_asg) k) (after (?z k) (d k)) =
      after (after (pend e w (\<lambda>_. no_asg) k) (?z k)) (d k)"
    by (simp add: after_assoc)
  also have "after (pend e w (\<lambda>_. no_asg) k) (?z k) = pend e w ?z k"
    by (rule Cons.IH[symmetric])
  also have "pend e w ?z = pend e (a # w) (\<lambda>_. no_asg)" by (simp add: pend_def)
  finally show ?case .
qed

lemma pend_twice: "pend e w (pend e w (\<lambda>_. no_asg)) = pend e w (\<lambda>_. no_asg)"
  by (rule ext) (simp add: pend_split[of e w "pend e w (\<lambda>_. no_asg)"])

lemma fold_upsert_twice: "fold (upsert e) w (fold (upsert e) w bs) = fold (upsert e) w bs"
proof -
  let ?D = "pend e w (\<lambda>_. no_asg)"
  from fold_upsert_any[of bs "\<lambda>_. no_asg" e w] obtain ys where
    ys: "fold (upsert e) w bs = apply_pending ?D (bs @ ys)"
      "\<forall>rb \<in> set w. remote_key rb \<in> buf_key ` set (bs @ ys)"
    by auto
  from fold_upsert_present[OF ys(2), of e ?D]
  have "fold (upsert e) w (apply_pending ?D (bs @ ys)) = apply_pending ?D (bs @ ys)"
    by (simp add: pend_twice)
  with ys(1) show ?thesis by simp
qed


text \<open>The first loop neither renames a buffer nor changes its kind, so it commutes with the
  test of the second loop, and it keeps the buffers it found in place.\<close>

lemma set_fields_key [simp]: "buf_key (set_fields e rb b) = buf_key b"
  by (simp add: set_fields_act)

lemma set_fields_name_kind [simp]: "name_kind (set_fields e rb b) = name_kind b"
  by (simp add: set_fields_act)

lemma stale_set_fields [simp]: "stale remote (set_fields e rb b) = stale remote b"
  by (simp add: set_fields_act)

lemma filter_map_first:
  assumes "\<And>x. P x \<Longrightarrow> K x" and "\<And>x. K (g x) = K x"
  shows "filter K (map_first P g xs) = map_first P g (filter K xs)"
  using assms by (induction xs) auto

lemma map_first_name_kind:
  assumes "\<And>x. name_kind (g x) = name_kind x"
  shows "map name_kind (map_first P g xs) = map name_kind xs"
  using assms by (induction xs) auto

lemma map_first_length [simp]: "length (map_first P g xs) = length xs"
  by (induction xs) auto

lemma filter_upsert:
  assumes "rb \<in> set remote"
  shows "filter (\<lambda>b. \<not> stale remote b) (upsert e rb bs) =
     upsert e rb (filter (\<lambda>b. \<not> stale remote b) bs)"
proof -
  let ?K = "\<lambda>b. \<not> stale remote b"
  let ?n = "(new_buffer e (rb_name rb))\<lparr> buf_name := rb_name rb \<rparr>"
  have kept: "\<And>b. buf_key b = remote_key rb \<Longrightarrow> ?K b"
    using assms by (auto simp: stale_def)
  have present: "(remote_key rb \<in> buf_key ` set (filter ?K bs)) = (remote_key rb \<in> buf_key ` set bs)"
    using kept by (auto simp: image_iff)
  have "buf_key ?n = remote_key rb" by (simp add: buf_key_def remote_key_def)
  then have new: "?K (set_fields e rb ?n)"
    by (intro kept) simp
  show ?thesis
  proof (cases "remote_key rb \<in> buf_key ` set bs")
    case True
    have "filter ?K (map_first (\<lambda>b. buf_key b = remote_key rb) (set_fields e rb) bs) =
        map_first (\<lambda>b. buf_key b = remote_key rb) (set_fields e rb) (filter ?K bs)"
      by (rule filter_map_first) (simp_all add: kept)
    with True present show ?thesis by (simp add: upsert_def)
  next
    case False
    with present new show ?thesis by (simp add: upsert_def)
  qed
qed

lemma filter_fold_upsert:
  assumes "set w \<subseteq> set remote"
  shows "fold (upsert e) w (filter (\<lambda>b. \<not> stale remote b) bs) =
     filter (\<lambda>b. \<not> stale remote b) (fold (upsert e) w bs)"
  using assms
proof (induction w arbitrary: bs)
  case Nil
  then show ?case by simp
next
  case (Cons a w)
  then have a: "a \<in> set remote" and w: "set w \<subseteq> set remote" by auto
  from Cons.IH[OF w, of "upsert e a bs"] filter_upsert[OF a, of e bs] show ?case by simp
qed

lemma reconcile_twice:
  "fst (reconcile e c remote (fst (reconcile e c' remote bs))) = fst (reconcile e c' remote bs)"
  by (simp add: reconcile_eq filter_fold_upsert fold_upsert_twice)

lemma upsert_extends:
  "\<exists>xs ys. upsert e rb bs = xs @ ys \<and> map name_kind xs = map name_kind bs"
proof (cases "remote_key rb \<in> buf_key ` set bs")
  case True
  have "map name_kind (map_first (\<lambda>b. buf_key b = remote_key rb) (set_fields e rb) bs) =
      map name_kind bs"
    by (rule map_first_name_kind) simp
  with True show ?thesis
    by (intro exI[where x = "upsert e rb bs"] exI[where x = "[]"]) (simp add: upsert_def)
next
  case False
  then show ?thesis
    by (intro exI[where x = bs] exI[where x = "[set_fields e rb ((new_buffer e (rb_name rb))\<lparr> buf_name := rb_name rb \<rparr>)]"])
      (simp add: upsert_def)
qed

lemma fold_upsert_extends:
  "\<exists>xs ys. fold (upsert e) w bs = xs @ ys \<and> map name_kind xs = map name_kind bs"
proof (induction w arbitrary: bs)
  case Nil
  show ?case by (intro exI[where x = bs] exI[where x = "[]"]) simp
next
  case (Cons a w)
  from upsert_extends[of e a bs] obtain xs ys where
    u: "upsert e a bs = xs @ ys" "map name_kind xs = map name_kind bs" by blast
  from Cons.IH[of "upsert e a bs"] obtain xs' ys' where
    f: "fold (upsert e) w (upsert e a bs) = xs' @ ys'"
      "map name_kind xs' = map name_kind (upsert e a bs)" by blast
  from u f(2) have len: "length xs \<le> length xs'"
    by (metis length_append length_map le_add1)
  have "take (length xs) (map name_kind xs') = map name_kind xs"
    using f(2) u(1) by simp
  then have t: "map name_kind (take (length xs) xs') = map name_kind bs"
    using u(2) by (simp add: take_map)
  have "fold (upsert e) (a # w) bs = take (length xs) xs' @ (drop (length xs) xs' @ ys')"
    using f(1) by simp
  with t show ?case by blast
qed

lemma filter_name_kind:
  assumes same: "\<And>a b. name_kind a = name_kind b \<Longrightarrow> K a = K b"
  shows "map name_kind xs = map name_kind bs \<Longrightarrow>
     map name_kind (filter K xs) = map name_kind (filter K bs)"
proof (induction xs arbitrary: bs)
  case Nil
  then show ?case by simp
next
  case (Cons x xs)
  then obtain b bs' where bs: "bs = b # bs'" "name_kind x = name_kind b"
    "map name_kind xs = map name_kind bs'" by (cases bs) auto
  have k: "K x = K b" by (rule same[OF bs(2)])
  have ih: "map name_kind (filter K xs) = map name_kind (filter K bs')"
    by (rule Cons.IH[OF bs(3)])
  show ?case
  proof (cases "K b")
    case True
    with k ih bs(1,2) show ?thesis by simp
  next
    case False
    with k ih bs(1) show ?thesis by simp
  qed
qed

lemma reconcile_keeps:
  assumes "\<And>a b. name_kind a = name_kind b \<Longrightarrow> K a = K b" and "\<And>b. K b \<Longrightarrow> \<not> stale remote b"
  shows "prefix (map name_kind (filter K bs)) (map name_kind (filter K (fst (reconcile e c remote bs))))"
proof -
  from fold_upsert_extends[of e remote bs] obtain xs ys where
    f: "fold (upsert e) remote bs = xs @ ys" "map name_kind xs = map name_kind bs" by blast
  have "\<And>x. (\<not> stale remote x \<and> K x) = K x" using assms(2) by blast
  then have "filter K (fst (reconcile e c remote bs)) = filter K (xs @ ys)"
    by (simp add: reconcile_eq f(1))
  moreover have "map name_kind (filter K xs) = map name_kind (filter K bs)"
    by (rule filter_name_kind[OF assms(1) f(2)])
  ultimately show ?thesis by (simp add: prefix_def)
qed

text \<open>\<^verbatim>\<open>syncBncNetwork\<close> changes the buffers of its network and the commands sent, nothing
  else.\<close>

lemma syncBncNetwork_heap:
  "heap (syncBncNetwork e r p) =
     (heap p)(r := (heap p r)\<lparr> buffers :=
        fst (reconcile e (net_state (heap p r) = Connected)
               (getBuffers e r (bncname (connection (heap p r)))) (buffers (heap p r))) \<rparr>)"
  by (simp add: syncBncNetwork_def Let_def split_def)

lemma syncBncNetwork_frame:
  "networks (syncBncNetwork e r p) = networks p \<and>
   next_id (syncBncNetwork e r p) = next_id p \<and>
   controllerNetwork (syncBncNetwork e r p) = controllerNetwork p \<and>
   networksSnapshot (syncBncNetwork e r p) = networksSnapshot p \<and>
   bnc (syncBncNetwork e r p) = bnc p"
  by (simp add: syncBncNetwork_def Let_def split_def)

text \<open>
  C4. Running \<^verbatim>\<open>syncBncNetwork\<close> a second time for the same network, the relay answering with
  the same list, leaves every network as the first run left it: no buffer is added or removed
  and no field of a buffer changes. The same holds of the two loops on any buffers and any
  remote list.
\<close>

theorem syncBncNetwork_idempotent:
  "heap (syncBncNetwork e r (syncBncNetwork e r p)) = heap (syncBncNetwork e r p) \<and>
   networks (syncBncNetwork e r (syncBncNetwork e r p)) = networks (syncBncNetwork e r p) \<and>
   fst (reconcile e c remote (fst (reconcile e c remote bs))) = fst (reconcile e c remote bs)"
proof -
  have "heap (syncBncNetwork e r (syncBncNetwork e r p)) = heap (syncBncNetwork e r p)"
    by (simp add: syncBncNetwork_heap[of e r "syncBncNetwork e r p"] reconcile_twice)
      (simp add: syncBncNetwork_heap reconcile_twice)
  then show ?thesis
    by (simp add: syncBncNetwork_frame reconcile_twice)
qed

text \<open>Unfolding the example of reconciliation.\<close>

lemmas chat_defs = chat_provider_def chat_net_def chat_buffers_def freenode_net_def
  blank_network_def new_provider_def example_env_def

lemmas sync_defs = syncBncNetwork_def reconcile_def sync_buffer_def remove_stale_def
  addBuffer_def removeBuffer_def set_fields_def isChannel_def isQuery_def js_or_def
  toLowerCase_def lower_char_def Let_def

lemma chat_synced:
  "buffers (heap (syncBncNetwork example_env 0 chat_provider) 0) =
     [\<lparr> buf_name = ''*'', buf_kind = Other, buf_enabled = True, buf_joined = False,
        buf_last_read = Num 0, buf_topic = Str [] \<rparr>,
      \<lparr> buf_name = ''#CHAN'', buf_kind = Channel, buf_enabled = True, buf_joined = True,
        buf_last_read = Num 1000, buf_topic = Str [] \<rparr>,
      \<lparr> buf_name = ''#old'', buf_kind = Channel, buf_enabled = False, buf_joined = False,
        buf_last_read = Num 0, buf_topic = Str ''hi'' \<rparr>]"
  by (simp add: chat_defs sync_defs)


text \<open>
  Witness for C4: \<open>freenode\<close> has the buffers \<open>*\<close>, \<open>#gone\<close> and \<open>#CHAN\<close>; the first run leaves
  \<open>*\<close>, \<open>#CHAN\<close> (joined, read at 1000) and \<open>#old\<close>, and the second run leaves the same.
\<close>

theorem syncBncNetwork_idempotent_witness:
  "map buf_name (buffers (heap chat_provider 0)) = [''*'', ''#gone'', ''#CHAN''] \<and>
   map buf_name (buffers (heap (syncBncNetwork example_env 0 chat_provider) 0)) =
     [''*'', ''#CHAN'', ''#old''] \<and>
   buffers (heap (syncBncNetwork example_env 0 (syncBncNetwork example_env 0 chat_provider)) 0) =
     buffers (heap (syncBncNetwork example_env 0 chat_provider) 0)"
proof -
  have before: "map buf_name (buffers (heap chat_provider 0)) = [''*'', ''#gone'', ''#CHAN'']"
    by (simp add: chat_defs)
  from syncBncNetwork_idempotent[of example_env 0 chat_provider]
  have "heap (syncBncNetwork example_env 0 (syncBncNetwork example_env 0 chat_provider)) =
      heap (syncBncNetwork example_env 0 chat_provider)"
    by simp
  with before show ?thesis by (simp add: chat_synced)
qed

text \<open>
  C5. After \<^verbatim>\<open>syncBncNetwork\<close> for the network \<open>r\<close>, no buffer of \<open>r\<close> that is a channel or a
  query has a name that is absent, compared in lower case, from the list the relay answered
  with. The buffers of any other kind are all still there, in their order and under their names
  (buffers the first loop created may follow them); more generally every buffer that is not a
  channel or query absent from the list is still there.
\<close>

theorem syncBncNetwork_removes_absent:
  "(\<forall>b \<in> set (buffers (heap (syncBncNetwork e r p) r)).
      isChannel b \<or> isQuery b \<longrightarrow>
      (\<exists>rb \<in> set (getBuffers e r (bncname (connection (heap p r)))).
         toLowerCase (rb_name rb) = toLowerCase (buf_name b))) \<and>
   prefix (map name_kind (filter (\<lambda>b. \<not> isChannel b \<and> \<not> isQuery b) (buffers (heap p r))))
     (map name_kind (filter (\<lambda>b. \<not> isChannel b \<and> \<not> isQuery b)
        (buffers (heap (syncBncNetwork e r p) r)))) \<and>
   prefix (map name_kind
        (filter (\<lambda>b. \<not> stale (getBuffers e r (bncname (connection (heap p r)))) b)
           (buffers (heap p r))))
     (map name_kind (buffers (heap (syncBncNetwork e r p) r)))"
proof -
  let ?remote = "getBuffers e r (bncname (connection (heap p r)))"
  let ?c = "net_state (heap p r) = Connected"
  let ?after = "fst (reconcile e ?c ?remote (buffers (heap p r)))"
  have after: "buffers (heap (syncBncNetwork e r p) r) = ?after"
    by (simp add: syncBncNetwork_heap)
  have gone: "\<forall>b \<in> set ?after. isChannel b \<or> isQuery b \<longrightarrow>
      (\<exists>rb \<in> set ?remote. toLowerCase (rb_name rb) = toLowerCase (buf_name b))"
    by (auto simp: reconcile_eq stale_def isChannel_def isQuery_def buf_key_def remote_key_def
        image_iff)
  have other: "prefix (map name_kind (filter (\<lambda>b. \<not> isChannel b \<and> \<not> isQuery b) (buffers (heap p r))))
      (map name_kind (filter (\<lambda>b. \<not> isChannel b \<and> \<not> isQuery b) ?after))"
    by (rule reconcile_keeps)
      (auto simp: isChannel_def isQuery_def name_kind_def stale_def)
  have "prefix (map name_kind (filter (\<lambda>b. \<not> stale ?remote b) (buffers (heap p r))))
      (map name_kind (filter (\<lambda>b. \<not> stale ?remote b) ?after))"
    by (rule reconcile_keeps) (auto dest: stale_name_kind)
  moreover have "filter (\<lambda>b. \<not> stale ?remote b) ?after = ?after"
    by (simp add: reconcile_eq)
  ultimately have kept: "prefix (map name_kind (filter (\<lambda>b. \<not> stale ?remote b) (buffers (heap p r))))
      (map name_kind ?after)"
    by simp
  from gone other kept show ?thesis
    unfolding after by (intro conjI)
qed

text \<open>
  Witness for C5: in the example \<open>#gone\<close> is a channel the relay does not list and is removed,
  \<open>#CHAN\<close> is listed as \<open>#chan\<close> and stays, and the server buffer \<open>*\<close> stays although the relay
  does not list it.
\<close>

theorem syncBncNetwork_removes_absent_witness:
  "map name_kind (buffers (heap chat_provider 0)) =
     [(''*'', Other), (''#gone'', Channel), (''#CHAN'', Channel)] \<and>
   map name_kind (buffers (heap (syncBncNetwork example_env 0 chat_provider) 0)) =
     [(''*'', Other), (''#CHAN'', Channel), (''#old'', Channel)] \<and>
   map rb_name (getBuffers example_env 0 (bncname (connection (heap chat_provider 0)))) =
     [''#chan'', ''#old''] \<and>
   (\<exists>rb \<in> set (getBuffers example_env 0 (bncname (connection (heap chat_provider 0)))).
      toLowerCase (rb_name rb) = toLowerCase ''#CHAN'') \<and>
   prefix [(''*'', Other)]
     (map name_kind (filter (\<lambda>b. \<not> isChannel b \<and> \<not> isQuery b)
        (buffers (heap (syncBncNetwork example_env 0 chat_provider) 0))))"
proof -
  let ?b = "\<lparr> buf_name = ''#CHAN'', buf_kind = Channel, buf_enabled = True, buf_joined = True,
      buf_last_read = Num 1000, buf_topic = Str [] \<rparr>"
  have before: "map name_kind (buffers (heap chat_provider 0)) =
      [(''*'', Other), (''#gone'', Channel), (''#CHAN'', Channel)]"
    by (simp add: chat_defs name_kind_def)
  have others: "map name_kind (filter (\<lambda>b. \<not> isChannel b \<and> \<not> isQuery b)
      (buffers (heap chat_provider 0))) = [(''*'', Other)]"
    by (simp add: chat_defs name_kind_def isChannel_def isQuery_def)
  have remote: "map rb_name (getBuffers example_env 0 (bncname (connection (heap chat_provider 0)))) =
      [''#chan'', ''#old'']"
    by (simp add: chat_defs)
  have mem: "?b \<in> set (buffers (heap (syncBncNetwork example_env 0 chat_provider) 0))"
    by (simp add: chat_synced)
  have chan: "isChannel ?b \<or> isQuery ?b" by (simp add: isChannel_def)
  note inst = syncBncNetwork_removes_absent[of example_env 0 chat_provider]
  from inst mem chan
  have listed: "\<exists>rb \<in> set (getBuffers example_env 0 (bncname (connection (heap chat_provider 0)))).
      toLowerCase (rb_name rb) = toLowerCase (buf_name ?b)"
    by blast
  from inst others
  have kept: "prefix [(''*'', Other)]
     (map name_kind (filter (\<lambda>b. \<not> isChannel b \<and> \<not> isQuery b)
        (buffers (heap (syncBncNetwork example_env 0 chat_provider) 0))))"
    by simp
  from before remote listed kept show ?thesis
    by (simp add: chat_synced name_kind_def)
qed

subsection \<open>Network merger\<close>

lemma syncBncNetwork_buffers_only:
  "heap (syncBncNetwork e r p) q = (heap p q)\<lparr> buffers := buffers (heap (syncBncNetwork e r p) q) \<rparr>"
  by (simp add: syncBncNetwork_heap)

lemma syncBncNetwork_other: "q \<noteq> r \<Longrightarrow> heap (syncBncNetwork e r p) q = heap p q"
  by (simp add: syncBncNetwork_heap)

text \<open>
  C10. When \<^verbatim>\<open>getNetworkFromBncName\<close> finds a network \<open>r\<close> for the entry's name,
  \<^verbatim>\<open>addNetworkToState\<close> is \<^verbatim>\<open>syncBncNetwork\<close> on \<open>r\<close>: no network is created, every network
  keeps all its fields but its buffers, so the server, port, tls, nick and relay name of \<open>r\<close>'s
  connection, its password, username and name are unchanged, and the other networks are
  untouched. A network is created, under the entry's name as relay name and at the end of the
  list, only when the lookup finds none.
\<close>

theorem addNetworkToState_keeps_parameters:
  "(getNetworkFromBncName p (rn_name nw) = Some r \<longrightarrow>
      addNetworkToState e nw p = syncBncNetwork e r p \<and>
      networks (addNetworkToState e nw p) = networks p \<and>
      next_id (addNetworkToState e nw p) = next_id p \<and>
      (\<forall>q. heap (addNetworkToState e nw p) q =
           (heap p q)\<lparr> buffers := buffers (heap (addNetworkToState e nw p) q) \<rparr>) \<and>
      (\<forall>q. q \<noteq> r \<longrightarrow> heap (addNetworkToState e nw p) q = heap p q) \<and>
      connection (heap (addNetworkToState e nw p) r) = connection (heap p r) \<and>
      password (heap (addNetworkToState e nw p) r) = password (heap p r) \<and>
      username (heap (addNetworkToState e nw p) r) = username (heap p r) \<and>
      name (heap (addNetworkToState e nw p) r) = name (heap p r)) \<and>
   (getNetworkFromBncName p (rn_name nw) = None \<longrightarrow>
      networks (addNetworkToState e nw p) = networks p @ [next_id p] \<and>
      next_id (addNetworkToState e nw p) = Suc (next_id p) \<and>
      bncname (connection (heap (addNetworkToState e nw p) (next_id p))) = rn_name nw \<and>
      server (connection (heap (addNetworkToState e nw p) (next_id p))) = rn_host nw \<and>
      (\<forall>q. q \<noteq> next_id p \<longrightarrow> heap (addNetworkToState e nw p) q = heap p q))"
proof (intro conjI impI)
  assume m: "getNetworkFromBncName p (rn_name nw) = Some r"
  then show eq: "addNetworkToState e nw p = syncBncNetwork e r p"
    by (simp add: addNetworkToState_def)
  show "networks (addNetworkToState e nw p) = networks p"
    "next_id (addNetworkToState e nw p) = next_id p"
    by (simp_all add: eq syncBncNetwork_frame)
  show "\<forall>q. heap (addNetworkToState e nw p) q =
      (heap p q)\<lparr> buffers := buffers (heap (addNetworkToState e nw p) q) \<rparr>"
    unfolding eq using syncBncNetwork_buffers_only by blast
  show "\<forall>q. q \<noteq> r \<longrightarrow> heap (addNetworkToState e nw p) q = heap p q"
    unfolding eq by (simp add: syncBncNetwork_other)
  show "connection (heap (addNetworkToState e nw p) r) = connection (heap p r)"
    "password (heap (addNetworkToState e nw p) r) = password (heap p r)"
    "username (heap (addNetworkToState e nw p) r) = username (heap p r)"
    "name (heap (addNetworkToState e nw p) r) = name (heap p r)"
    unfolding eq by (simp_all add: syncBncNetwork_heap)
next
  assume m: "getNetworkFromBncName p (rn_name nw) = None"
  let ?info = "\<lparr> si_server = rn_host nw, si_port = rn_port nw, si_tls = rn_tls nw,
      si_password = rn_password nw, si_bncname = rn_name nw, si_username = rn_user nw \<rparr>"
  let ?a = "addNetwork (new_network e) (rn_name nw) (js_or (rn_nick nw) (Str [])) ?info p"
  have eq: "addNetworkToState e nw p = syncBncNetwork e (next_id p) (snd ?a)"
    using m by (simp add: addNetworkToState_def addNetwork_def)
  show "networks (addNetworkToState e nw p) = networks p @ [next_id p]"
    "next_id (addNetworkToState e nw p) = Suc (next_id p)"
    by (simp_all add: eq syncBncNetwork_frame addNetwork_def)
  show "bncname (connection (heap (addNetworkToState e nw p) (next_id p))) = rn_name nw"
    "server (connection (heap (addNetworkToState e nw p) (next_id p))) = rn_host nw"
    by (simp_all add: eq syncBncNetwork_heap addNetwork_def)
  show "\<forall>q. q \<noteq> next_id p \<longrightarrow> heap (addNetworkToState e nw p) q = heap p q"
    by (simp add: eq syncBncNetwork_other addNetwork_def)
qed


text \<open>
  Witness for C10: the relay's entry \<open>freenode\<close> matches the local network 0, whose connection
  and password stay and whose buffers are reconciled; the entry \<open>oldnet\<close> matches none and a
  network 1 is created for it.
\<close>

theorem addNetworkToState_keeps_parameters_witness:
  "getNetworkFromBncName chat_provider (rn_name freenode_entry) = Some 0 \<and>
   networks (addNetworkToState example_env freenode_entry chat_provider) = [0] \<and>
   connection (heap (addNetworkToState example_env freenode_entry chat_provider) 0) =
     connection (freenode_net ''bob'') \<and>
   password (heap (addNetworkToState example_env freenode_entry chat_provider) 0) =
     Str ''alice/freenode:s3cret'' \<and>
   map buf_name (buffers (heap (addNetworkToState example_env freenode_entry chat_provider) 0)) =
     [''*'', ''#CHAN'', ''#old''] \<and>
   getNetworkFromBncName chat_provider (rn_name oldnet_entry) = None \<and>
   networks (addNetworkToState example_env oldnet_entry chat_provider) = [0, 1] \<and>
   bncname (connection (heap (addNetworkToState example_env oldnet_entry chat_provider) 1)) =
     ''oldnet'' \<and>
   heap (addNetworkToState example_env oldnet_entry chat_provider) 0 = heap chat_provider 0"
proof -
  have f: "getNetworkFromBncName chat_provider (rn_name freenode_entry) = Some 0"
    by (simp add: getNetworkFromBncName_def chat_defs freenode_entry_def)
  have n: "getNetworkFromBncName chat_provider (rn_name oldnet_entry) = None"
    by (simp add: getNetworkFromBncName_def chat_defs oldnet_entry_def)
  have base: "networks chat_provider = [0]" "next_id chat_provider = 1"
    "connection (heap chat_provider 0) = connection (freenode_net ''bob'')"
    "password (heap chat_provider 0) = Str ''alice/freenode:s3cret''"
    "rn_name oldnet_entry = ''oldnet''"
    by (simp_all add: chat_provider_def chat_net_def new_provider_def oldnet_entry_def)
  note found = addNetworkToState_keeps_parameters[of chat_provider freenode_entry 0 example_env]
  from found f
  have a1: "addNetworkToState example_env freenode_entry chat_provider =
      syncBncNetwork example_env 0 chat_provider"
    by blast
  from found f
  have a2: "networks (addNetworkToState example_env freenode_entry chat_provider) =
      networks chat_provider"
    by blast
  from found f
  have a3: "connection (heap (addNetworkToState example_env freenode_entry chat_provider) 0) =
      connection (heap chat_provider 0)"
    by blast
  from found f
  have a4: "password (heap (addNetworkToState example_env freenode_entry chat_provider) 0) =
      password (heap chat_provider 0)"
    by blast
  note made = addNetworkToState_keeps_parameters[of chat_provider oldnet_entry 0 example_env]
  from made n
  have b1: "networks (addNetworkToState example_env oldnet_entry chat_provider) =
      networks chat_provider @ [next_id chat_provider]"
    by blast
  from made n
  have b2: "bncname (connection (heap (addNetworkToState example_env oldnet_entry chat_provider)
      (next_id chat_provider))) = rn_name oldnet_entry"
    by blast
  from made n
  have "\<forall>q. q \<noteq> next_id chat_provider \<longrightarrow>
      heap (addNetworkToState example_env oldnet_entry chat_provider) q = heap chat_provider q"
    by blast
  then have b3: "heap (addNetworkToState example_env oldnet_entry chat_provider) 0 =
      heap chat_provider 0"
    by (simp add: base)
  have synced: "map buf_name (buffers (heap (syncBncNetwork example_env 0 chat_provider) 0)) =
      [''*'', ''#CHAN'', ''#old'']"
    by (simp add: chat_synced)
  from f n a2 a3 a4 b1 b2 b3 synced show ?thesis
    by (simp add: a1 base)
qed

subsection \<open>Login sequence\<close>

text \<open>The pieces of \<^verbatim>\<open>split\<close>: the first is the text before the first separator, there is a
  second exactly when there is a separator, and it is the text between the first two.\<close>

lemma split_on_nonempty [simp]: "split_on c s \<noteq> []"
  by (induction s) (simp_all add: Let_def)

lemma hd_split_on: "hd (split_on c s) = takeWhile (\<lambda>x. x \<noteq> c) s"
  by (induction s) (simp_all add: Let_def)

lemma length_split_on: "(1 < length (split_on c s)) = (c \<in> set s)"
proof (induction s)
  case Nil
  then show ?case by simp
next
  case (Cons x xs)
  have "length (split_on c xs) \<noteq> 0" by simp
  with Cons show ?case by (auto simp: Let_def)
qed

lemma second_split_on:
  "c \<in> set s \<Longrightarrow> split_on c s ! 1 = takeWhile (\<lambda>x. x \<noteq> c) (tl (dropWhile (\<lambda>x. x \<noteq> c) s))"
proof (induction s)
  case Nil
  then show ?case by simp
next
  case (Cons x xs)
  show ?case
  proof (cases "x = c")
    case True
    then show ?thesis by (simp add: Let_def hd_split_on[symmetric] hd_conv_nth)
  next
    case False
    with Cons.prems have in_xs: "c \<in> set xs" by simp
    then have len: "1 < length (split_on c xs)" using length_split_on[of c xs] by simp
    then have "tl (split_on c xs) ! 0 = split_on c xs ! 1"
      by (simp add: nth_tl)
    with False Cons.IH[OF in_xs] show ?thesis by (simp add: Let_def)
  qed
qed

text \<open>The networks that exist when the relay's list is merged keep everything but their
  buffers, whatever the list.\<close>

lemma addNetworkToState_old:
  assumes "q < next_id p"
  shows "heap (addNetworkToState e nw p) q =
      (heap p q)\<lparr> buffers := buffers (heap (addNetworkToState e nw p) q) \<rparr> \<and>
     next_id p \<le> next_id (addNetworkToState e nw p)"
proof (cases "getNetworkFromBncName p (rn_name nw)")
  case None
  let ?info = "\<lparr> si_server = rn_host nw, si_port = rn_port nw, si_tls = rn_tls nw,
      si_password = rn_password nw, si_bncname = rn_name nw, si_username = rn_user nw \<rparr>"
  let ?a = "addNetwork (new_network e) (rn_name nw) (js_or (rn_nick nw) (Str [])) ?info p"
  have eq: "addNetworkToState e nw p = syncBncNetwork e (next_id p) (snd ?a)"
    using None by (simp add: addNetworkToState_def addNetwork_def)
  from assms have "q \<noteq> next_id p" by simp
  then have "heap (addNetworkToState e nw p) q = heap p q"
    by (simp add: eq syncBncNetwork_other addNetwork_def)
  then show ?thesis by (simp add: eq syncBncNetwork_frame addNetwork_def)
next
  case (Some i)
  then have eq: "addNetworkToState e nw p = syncBncNetwork e i p"
    by (simp add: addNetworkToState_def)
  show ?thesis unfolding eq
    using syncBncNetwork_buffers_only[of e i p q] by (simp add: syncBncNetwork_frame)
qed

lemma fold_addNetworkToState_old:
  assumes "q < next_id p"
  shows "password (heap (fold (addNetworkToState e) ws p) q) = password (heap p q) \<and>
     connection (heap (fold (addNetworkToState e) ws p) q) = connection (heap p q) \<and>
     bnc (fold (addNetworkToState e) ws p) = bnc p"
  using assms
proof (induction ws arbitrary: p)
  case Nil
  then show ?case by simp
next
  case (Cons w ws)
  let ?p = "addNetworkToState e w p"
  from addNetworkToState_old[OF Cons.prems, of e w]
  have h: "heap ?p q = (heap p q)\<lparr> buffers := buffers (heap ?p q) \<rparr>" and n: "q < next_id ?p"
    using Cons.prems by auto
  have b: "bnc ?p = bnc p"
    by (simp add: addNetworkToState_def addNetwork_def syncBncNetwork_frame split: option.splits)
  have "password (heap ?p q) = password (heap p q)" "connection (heap ?p q) = connection (heap p q)"
    by (subst h, simp)+
  with Cons.IH[OF n] b show ?case by simp
qed

text \<open>What \<^verbatim>\<open>initAndAddNetworks\<close> stores for a login password that is a string.\<close>

lemma initAndAddNetworks_credentials:
  assumes pw: "password (heap p r) = Str pw" and old: "r < next_id p"
  shows "fst (initAndAddNetworks e r p) = None \<and>
     bnc_username (bnc (snd (initAndAddNetworks e r p))) =
       Str (takeWhile (\<lambda>x. x \<noteq> CHR ''/'') (takeWhile (\<lambda>x. x \<noteq> CHR '':'') pw)) \<and>
     bnc_password (bnc (snd (initAndAddNetworks e r p))) =
       (if CHR '':'' \<in> set pw
        then Str (takeWhile (\<lambda>x. x \<noteq> CHR '':'') (tl (dropWhile (\<lambda>x. x \<noteq> CHR '':'') pw)))
        else Undefined) \<and>
     bnc_enabled (bnc (snd (initAndAddNetworks e r p)))"
proof -
  let ?p2 = "p\<lparr> bnc := (bnc p)\<lparr> bnc_registered := True \<rparr>,
      heap := (heap p)(r := (heap p r)\<lparr> hidden := \<not> bnc_hasNetwork (ircClient (heap p r)) \<rparr>) \<rparr>"
  let ?p3 = "fold (addNetworkToState e) (getNetworks e r) ?p2"
  have "r < next_id ?p2" using old by simp
  from fold_addNetworkToState_old[OF this, of e "getNetworks e r"] pw
  have p3: "password (heap ?p3 r) = Str pw" by simp
  have second: "CHR '':'' \<in> set pw \<Longrightarrow> split_on CHR '':'' pw ! Suc 0 =
      takeWhile (\<lambda>x. x \<noteq> CHR '':'') (tl (dropWhile (\<lambda>x. x \<noteq> CHR '':'') pw))"
    using second_split_on[of "CHR '':''" pw] by simp
  have len: "(Suc 0 < length (split_on CHR '':'' pw)) = (CHR '':'' \<in> set pw)"
    using length_split_on[of "CHR '':''" pw] by simp
  show ?thesis
    by (simp add: initAndAddNetworks_def Let_def p3 monitorNetworkChanges_def
        snapshotCurrentNetworks_def hd_split_on len second)
qed


text \<open>
  C8, as the code has it. For a login network \<open>r\<close> whose password is a string (and whose id the
  store has already given out), \<^verbatim>\<open>initAndAddNetworks\<close> does not raise. For a password
  \<open>realuser/netname:secret\<close> with no \<open>/\<close> in realuser and no \<open>:\<close> but the one before secret, the
  relay username becomes realuser and the relay password secret. A malformed password does not
  leave the fields empty: with no \<open>:\<close> the username becomes the text before the first \<open>/\<close> (all of
  it when there is none) and the password \<^verbatim>\<open>undefined\<close>; with a single \<open>:\<close> the username becomes
  the text before the \<open>:\<close>, cut at its first \<open>/\<close>, and the password the text after the \<open>:\<close>.
\<close>

theorem initAndAddNetworks_derives_credentials:
  assumes pw: "password (heap p r) = Str pw" and old: "r < next_id p"
  shows "fst (initAndAddNetworks e r p) = None \<and>
     (\<forall>u n s. pw = u @ ''/'' @ n @ '':'' @ s \<and> CHR ''/'' \<notin> set u \<and> CHR '':'' \<notin> set u \<and>
        CHR '':'' \<notin> set n \<and> CHR '':'' \<notin> set s \<longrightarrow>
        bnc_username (bnc (snd (initAndAddNetworks e r p))) = Str u \<and>
        bnc_password (bnc (snd (initAndAddNetworks e r p))) = Str s) \<and>
     (CHR '':'' \<notin> set pw \<longrightarrow>
        bnc_username (bnc (snd (initAndAddNetworks e r p))) =
          Str (takeWhile (\<lambda>x. x \<noteq> CHR ''/'') pw) \<and>
        bnc_password (bnc (snd (initAndAddNetworks e r p))) = Undefined) \<and>
     (\<forall>u s. pw = u @ '':'' @ s \<and> CHR '':'' \<notin> set u \<and> CHR '':'' \<notin> set s \<longrightarrow>
        bnc_username (bnc (snd (initAndAddNetworks e r p))) =
          Str (takeWhile (\<lambda>x. x \<noteq> CHR ''/'') u) \<and>
        bnc_password (bnc (snd (initAndAddNetworks e r p))) = Str s)"
proof -
  note c = initAndAddNetworks_credentials[OF pw old, of e]
  have one: "bnc_username (bnc (snd (initAndAddNetworks e r p))) =
        Str (takeWhile (\<lambda>x. x \<noteq> CHR ''/'') u) \<and>
      bnc_password (bnc (snd (initAndAddNetworks e r p))) = Str s"
    if f: "pw = u @ '':'' @ s" "CHR '':'' \<notin> set u" "CHR '':'' \<notin> set s" for u s
  proof -
    have split: "pw = u @ CHR '':'' # s" using f(1) by simp
    have head: "\<forall>x \<in> set u. x \<noteq> CHR '':''" using f(2) by auto
    have t1: "takeWhile (\<lambda>x. x \<noteq> CHR '':'') pw = u"
      unfolding split using head by (simp add: takeWhile_tail)
    have d1: "dropWhile (\<lambda>x. x \<noteq> CHR '':'') pw = CHR '':'' # s"
      unfolding split using head by (simp add: dropWhile_append3)
    have t3: "takeWhile (\<lambda>x. x \<noteq> CHR '':'') s = s"
      using f(3) by (auto simp: takeWhile_eq_all_conv)
    have "CHR '':'' \<in> set pw" unfolding split by simp
    with c t1 d1 t3 show ?thesis by simp
  qed
  have formed: "bnc_username (bnc (snd (initAndAddNetworks e r p))) = Str u \<and>
      bnc_password (bnc (snd (initAndAddNetworks e r p))) = Str s"
    if f: "pw = u @ ''/'' @ n @ '':'' @ s" "CHR ''/'' \<notin> set u" "CHR '':'' \<notin> set u"
      "CHR '':'' \<notin> set n" "CHR '':'' \<notin> set s" for u n s
  proof -
    have split: "pw = (u @ ''/'' @ n) @ '':'' @ s" using f(1) by simp
    have head: "CHR '':'' \<notin> set (u @ ''/'' @ n)" using f(3,4) by auto
    have t2: "takeWhile (\<lambda>x. x \<noteq> CHR ''/'') (u @ ''/'' @ n) = u"
      using f(2) by (auto simp: takeWhile_tail)
    from one[OF split head f(5)] t2 show ?thesis by simp
  qed
  have none: "bnc_username (bnc (snd (initAndAddNetworks e r p))) =
        Str (takeWhile (\<lambda>x. x \<noteq> CHR ''/'') pw) \<and>
      bnc_password (bnc (snd (initAndAddNetworks e r p))) = Undefined"
    if f: "CHR '':'' \<notin> set pw"
  proof -
    have "takeWhile (\<lambda>x. x \<noteq> CHR '':'') pw = pw"
      using f by (auto simp: takeWhile_eq_all_conv)
    with c f show ?thesis by simp
  qed
  from c formed none one show ?thesis by blast
qed

text \<open>
  Witness for C8: the login password \<open>alice/freenode:s3cret\<close> gives \<open>alice\<close> and \<open>s3cret\<close>; the
  login password \<open>alice\<close>, with no separator, gives \<open>alice\<close> and \<^verbatim>\<open>undefined\<close>.
\<close>

theorem initAndAddNetworks_derives_credentials_witness:
  "password (heap chat_provider 0) = Str ''alice/freenode:s3cret'' \<and>
   0 < next_id chat_provider \<and>
   ''alice/freenode:s3cret'' = ''alice'' @ ''/'' @ ''freenode'' @ '':'' @ ''s3cret'' \<and>
   ''alice/freenode:s3cret'' = ''alice/freenode'' @ '':'' @ ''s3cret'' \<and>
   CHR ''/'' \<notin> set ''alice'' \<and> CHR '':'' \<notin> set ''alice'' \<and>
   CHR '':'' \<notin> set ''freenode'' \<and> CHR '':'' \<notin> set ''s3cret'' \<and>
   CHR '':'' \<notin> set ''alice/freenode'' \<and>
   fst (initAndAddNetworks example_env 0 chat_provider) = None \<and>
   bnc_username (bnc (snd (initAndAddNetworks example_env 0 chat_provider))) = Str ''alice'' \<and>
   bnc_password (bnc (snd (initAndAddNetworks example_env 0 chat_provider))) = Str ''s3cret'' \<and>
   password (heap malformed_provider 0) = Str ''alice'' \<and>
   0 < next_id malformed_provider \<and>
   fst (initAndAddNetworks example_env 0 malformed_provider) = None \<and>
   bnc_username (bnc (snd (initAndAddNetworks example_env 0 malformed_provider))) = Str ''alice'' \<and>
   bnc_password (bnc (snd (initAndAddNetworks example_env 0 malformed_provider))) = Undefined"
proof -
  have pw: "password (heap chat_provider 0) = Str ''alice/freenode:s3cret''"
    by (simp add: chat_provider_def chat_net_def new_provider_def)
  have old: "0 < next_id chat_provider"
    by (simp add: chat_provider_def new_provider_def)
  have form: "''alice/freenode:s3cret'' = ''alice'' @ ''/'' @ ''freenode'' @ '':'' @ ''s3cret'' \<and>
      CHR ''/'' \<notin> set ''alice'' \<and> CHR '':'' \<notin> set ''alice'' \<and>
      CHR '':'' \<notin> set ''freenode'' \<and> CHR '':'' \<notin> set ''s3cret''"
    by simp
  have single: "''alice/freenode:s3cret'' = ''alice/freenode'' @ '':'' @ ''s3cret'' \<and>
      CHR '':'' \<notin> set ''alice/freenode'' \<and> CHR '':'' \<notin> set ''s3cret''"
    by simp
  from initAndAddNetworks_derives_credentials[OF pw old, of example_env] form
  have good: "fst (initAndAddNetworks example_env 0 chat_provider) = None \<and>
      bnc_username (bnc (snd (initAndAddNetworks example_env 0 chat_provider))) = Str ''alice'' \<and>
      bnc_password (bnc (snd (initAndAddNetworks example_env 0 chat_provider))) = Str ''s3cret''"
    by blast
  have pw': "password (heap malformed_provider 0) = Str ''alice''"
    by (simp add: malformed_provider_def)
  have old': "0 < next_id malformed_provider"
    by (simp add: malformed_provider_def chat_provider_def new_provider_def)
  have nocolon: "CHR '':'' \<notin> set ''alice''" by simp
  have cut: "takeWhile (\<lambda>x. x \<noteq> CHR ''/'') ''alice'' = ''alice''" by simp
  from initAndAddNetworks_derives_credentials[OF pw' old', of example_env] nocolon
  have "fst (initAndAddNetworks example_env 0 malformed_provider) = None \<and>
      bnc_username (bnc (snd (initAndAddNetworks example_env 0 malformed_provider))) =
        Str (takeWhile (\<lambda>x. x \<noteq> CHR ''/'') ''alice'') \<and>
      bnc_password (bnc (snd (initAndAddNetworks example_env 0 malformed_provider))) = Undefined"
    by blast
  then have bad: "fst (initAndAddNetworks example_env 0 malformed_provider) = None \<and>
      bnc_username (bnc (snd (initAndAddNetworks example_env 0 malformed_provider))) = Str ''alice'' \<and>
      bnc_password (bnc (snd (initAndAddNetworks example_env 0 malformed_provider))) = Undefined"
    by (simp only: cut)
  from pw old form single good pw' old' bad show ?thesis by blast
qed

text \<open>
  Counterexample to C8 as stated. The login password \<open>alice\<close> has neither separator: the
  sequence does not raise, and the relay username, empty before, becomes \<open>alice\<close>, the relay
  password \<^verbatim>\<open>undefined\<close>. The login password \<open>alice/freenode:pa:ss\<close> has the stated format with the
  secret \<open>pa:ss\<close>: the relay password becomes \<open>pa\<close>.
\<close>

theorem initAndAddNetworks_malformed_not_empty:
  "password (heap malformed_provider 0) = Str ''alice'' \<and>
   CHR ''/'' \<notin> set ''alice'' \<and> CHR '':'' \<notin> set ''alice'' \<and>
   fst (initAndAddNetworks example_env 0 malformed_provider) = None \<and>
   bnc_username (bnc malformed_provider) = Str [] \<and>
   bnc_username (bnc (snd (initAndAddNetworks example_env 0 malformed_provider))) = Str ''alice'' \<and>
   bnc_password (bnc (snd (initAndAddNetworks example_env 0 malformed_provider))) = Undefined \<and>
   password (heap colon_provider 0) = Str (''alice'' @ ''/'' @ ''freenode'' @ '':'' @ ''pa:ss'') \<and>
   bnc_username (bnc (snd (initAndAddNetworks example_env 0 colon_provider))) = Str ''alice'' \<and>
   bnc_password (bnc (snd (initAndAddNetworks example_env 0 colon_provider))) = Str ''pa''"
proof -
  have pw: "password (heap malformed_provider 0) = Str ''alice''"
    by (simp add: malformed_provider_def)
  have old: "0 < next_id malformed_provider"
    by (simp add: malformed_provider_def chat_provider_def new_provider_def)
  have init: "bnc_username (bnc malformed_provider) = Str []"
    by (simp add: malformed_provider_def chat_provider_def new_provider_def initial_bnc_def)
  from initAndAddNetworks_credentials[OF pw old, of example_env]
  have bad: "fst (initAndAddNetworks example_env 0 malformed_provider) = None \<and>
      bnc_username (bnc (snd (initAndAddNetworks example_env 0 malformed_provider))) = Str ''alice'' \<and>
      bnc_password (bnc (snd (initAndAddNetworks example_env 0 malformed_provider))) = Undefined"
    by simp
  have pw2: "password (heap colon_provider 0) = Str ''alice/freenode:pa:ss''"
    by (simp add: colon_provider_def)
  have old2: "0 < next_id colon_provider"
    by (simp add: colon_provider_def chat_provider_def new_provider_def)
  from initAndAddNetworks_credentials[OF pw2 old2, of example_env]
  have cut: "bnc_username (bnc (snd (initAndAddNetworks example_env 0 colon_provider))) = Str ''alice'' \<and>
      bnc_password (bnc (snd (initAndAddNetworks example_env 0 colon_provider))) = Str ''pa''"
    by simp
  from pw init bad pw2 cut show ?thesis by simp
qed

end
